theory Spec2Isabelle
  imports Complex_Main "HOL-Library.Sublist"
begin

section \<open>Data model of joomla\_scanner.py\<close>

text \<open>
  Python's \<open>datetime\<close> is a count of microseconds, its unbounded \<open>int\<close> is \<open>int\<close>,
  \<open>str\<close> is \<open>string\<close>, \<open>Optional\<close> is \<open>option\<close>.
\<close>

type_synonym datetime = int

record vulnerability =
  type :: string
  description :: string
  severity :: string
  url :: string

record component =
  name :: string
  paths :: "string set"
  vulnerabilities :: "vulnerability list"
  version :: "string option"
  last_modified :: "datetime option"

record scan_config =
  url :: string
  threads :: int
  timeout :: real
  user_agent :: string
  verify_ssl :: bool
  max_retries :: int
  output_file :: "string option"

record scan_result =
  target_url :: string
  scan_time :: datetime
  duration :: real
  components :: "component list"
  total_vulnerabilities :: int
  scan_config :: scan_config

text \<open>The attributes of class \<open>Scanner\<close> that the methods read and assign.\<close>

record scanner =
  config :: scan_config
  components :: "component list"
  start_time :: "datetime option"

subsection \<open>Exceptions, the HTTP session and the trace of effects\<close>

text \<open>
  \<open>RequestError\<close> stands for \<open>httpx.RequestError\<close> and its subclasses, the only class
  \<open>check_url\<close> catches; \<open>Exception c\<close> is any other exception, of class \<open>c\<close>.
  A raise is the result \<open>Inl e\<close>.
\<close>

datatype exn = RequestError | Exception string

datatype http_method = GET | HEAD

text \<open>
  What the program does to the outside, in the order it does it: an exchange with the
  server through \<open>self.session\<close> (the request together with its outcome),
  \<open>asyncio.sleep(n)\<close>, \<open>progress.advance(task)\<close>, and the start of the coroutine
  \<open>check_component(c)\<close>.
\<close>

datatype event = Request http_method string | Sleep nat | Advance | Begin string

type_synonym trace = "event list"

text \<open>
  A response as far as the program reads it: \<open>status_code\<close>, \<open>text\<close> (here \<open>text_of\<close>), and \<open>headers\<close>
  with the case-insensitive lookup of httpx (keys in lower case).
\<close>

record response =
  status_code :: int
  text_of :: string
  headers :: "string \<rightharpoonup> string"

datatype outcome = Response response | Raises exn

text \<open>
  The session and the server behind it: the outcome of a request may depend on
  everything that happened before it, so any server, also one that fails now and
  answers later, is such a function.
\<close>

type_synonym session = "trace \<Rightarrow> http_method \<Rightarrow> string \<Rightarrow> outcome"

section \<open>Scanner.check\_url\<close>

text \<open>
  One \<open>session.get\<close>; on \<open>httpx.RequestError\<close> sleep one second and call itself with
  \<open>retry_count + 1\<close> while \<open>retry_count < max_retries\<close>, else return \<open>None\<close>. Any other
  exception is not caught.
\<close>

function check_url ::
  "session \<Rightarrow> scanner \<Rightarrow> string \<Rightarrow> int \<Rightarrow> trace \<Rightarrow> (exn + int option) \<times> trace" where
  "check_url srv self u retry_count tr =
     (case srv tr GET u of
        Response response \<Rightarrow> (Inr (Some (status_code response)), tr @ [Request GET u])
      | Raises e \<Rightarrow>
          if e = RequestError then
            if retry_count < max_retries (config self) then
              check_url srv self u (retry_count + 1) (tr @ [Request GET u, Sleep 1])
            else (Inr None, tr @ [Request GET u])
          else (Inl e, tr @ [Request GET u]))"
  by pat_completeness auto
termination
  by (relation "measure (\<lambda>(srv, self, u, retry_count, tr).
        nat (max_retries (config self) - retry_count))") auto

declare check_url.simps [simp del]

section \<open>Library functions the scanner calls\<close>

text \<open>
  \<open>urllib.parse.urljoin\<close>, the BeautifulSoup searches, \<open>datetime.strptime\<close> and
  \<open>timedelta.total_seconds\<close> are not code of the scanner; they are parameters. A search
  either raises, finds nothing, or finds a tag. A Python \<open>float\<close> is given as the real
  number it denotes; how \<open>total_seconds\<close> rounds is left to the parameter.
\<close>

datatype 'a lookup = Raised | Missing | Tag 'a

record library =
  urljoin :: "string \<Rightarrow> string \<Rightarrow> string"
  find_title :: "string \<Rightarrow> unit lookup"
    \<comment> \<open>\<open>soup.find("title", string=lambda x: x and "Index of" in x)\<close> on a response text\<close>
  find_generator :: "string \<Rightarrow> string option lookup"
    \<comment> \<open>\<open>soup.find("meta", {"name": "generator"})\<close>, with the tag's \<open>get("content")\<close>\<close>
  find_version :: "string \<Rightarrow> string lookup"
    \<comment> \<open>\<open>manifest_soup.find("version")\<close>, with the tag's \<open>text\<close>\<close>
  strptime :: "string \<Rightarrow> datetime option"
    \<comment> \<open>\<open>datetime.strptime(s, "%a, %d %b %Y %H:%M:%S %Z")\<close>; \<open>None\<close> when it raises\<close>
  total_seconds :: "int \<Rightarrow> real"
    \<comment> \<open>\<open>timedelta.total_seconds()\<close> of a difference of so many microseconds\<close>

section \<open>The exposure checks\<close>

text \<open>\<open>check_directory_listing\<close>: everything is inside \<open>try ... except Exception: return False\<close>.\<close>

definition check_directory_listing ::
  "session \<Rightarrow> library \<Rightarrow> string \<Rightarrow> trace \<Rightarrow> bool \<times> trace" where
  "check_directory_listing srv lib u tr =
     (case srv tr GET u of
        Response response \<Rightarrow>
          (case find_title lib (text_of response) of
             Tag _ \<Rightarrow> (True, tr @ [Request GET u])
           | Missing \<Rightarrow> (False, tr @ [Request GET u])
           | Raised \<Rightarrow> (False, tr @ [Request GET u]))
      | Raises e \<Rightarrow> (False, tr @ [Request GET u]))"

text \<open>
  The loop of \<open>check_readme_files\<close> and of \<open>check_manifest_files\<close>: return \<open>True\<close> at the
  first file whose \<open>check_url\<close> is 200, \<open>False\<close> after the last. An exception of
  \<open>check_url\<close> leaves the loop and the method.
\<close>

fun check_files ::
  "session \<Rightarrow> library \<Rightarrow> scanner \<Rightarrow> string \<Rightarrow> string list \<Rightarrow> trace \<Rightarrow> (exn + bool) \<times> trace" where
  "check_files srv lib self u [] tr = (Inr False, tr)"
| "check_files srv lib self u (path # rest) tr =
     (case check_url srv self (urljoin lib u path) 0 tr of
        (Inl e, tr1) \<Rightarrow> (Inl e, tr1)
      | (Inr status, tr1) \<Rightarrow>
          if status = Some 200 then (Inr True, tr1)
          else check_files srv lib self u rest tr1)"

definition readme_paths :: "string list" where
  "readme_paths = [''README.txt'', ''readme.txt'', ''README.md'', ''readme.md'']"

definition manifest_paths :: "string list" where
  "manifest_paths = [''MANIFEST.xml'', ''manifest.xml'']"

definition check_readme_files ::
  "session \<Rightarrow> library \<Rightarrow> scanner \<Rightarrow> string \<Rightarrow> trace \<Rightarrow> (exn + bool) \<times> trace" where
  "check_readme_files srv lib self u tr = check_files srv lib self u readme_paths tr"

definition check_manifest_files ::
  "session \<Rightarrow> library \<Rightarrow> scanner \<Rightarrow> string \<Rightarrow> trace \<Rightarrow> (exn + bool) \<times> trace" where
  "check_manifest_files srv lib self u tr = check_files srv lib self u manifest_paths tr"

text \<open>
  \<open>get_component_version\<close>: the generator meta tag of the page, else the version tag
  of \<open>manifest.xml\<close> when \<open>check_url\<close> gives 200 for it. Every exception, also one of
  \<open>check_url\<close>, is caught and the result is \<open>None\<close>.
\<close>

definition get_component_version ::
  "session \<Rightarrow> library \<Rightarrow> scanner \<Rightarrow> string \<Rightarrow> trace \<Rightarrow> string option \<times> trace" where
  "get_component_version srv lib self u tr =
     (case srv tr GET u of
        Raises e \<Rightarrow> (None, tr @ [Request GET u])
      | Response response \<Rightarrow>
          (case find_generator lib (text_of response) of
             Raised \<Rightarrow> (None, tr @ [Request GET u])
           | Tag content \<Rightarrow> (content, tr @ [Request GET u])
           | Missing \<Rightarrow>
               (let manifest_url = urljoin lib u ''manifest.xml'' in
                case check_url srv self manifest_url 0 (tr @ [Request GET u]) of
                  (Inl e, tr1) \<Rightarrow> (None, tr1)
                | (Inr status, tr1) \<Rightarrow>
                    if status = Some 200 then
                      (case srv tr1 GET manifest_url of
                         Raises e \<Rightarrow> (None, tr1 @ [Request GET manifest_url])
                       | Response manifest_response \<Rightarrow>
                           (case find_version lib (text_of manifest_response) of
                              Tag version_text \<Rightarrow> (Some version_text, tr1 @ [Request GET manifest_url])
                            | Missing \<Rightarrow> (None, tr1 @ [Request GET manifest_url])
                            | Raised \<Rightarrow> (None, tr1 @ [Request GET manifest_url])))
                    else (None, tr1))))"

text \<open>\<open>get_last_modified\<close>: one HEAD request; every exception is caught.\<close>

definition get_last_modified ::
  "session \<Rightarrow> library \<Rightarrow> string \<Rightarrow> trace \<Rightarrow> datetime option \<times> trace" where
  "get_last_modified srv lib u tr =
     (case srv tr HEAD u of
        Raises e \<Rightarrow> (None, tr @ [Request HEAD u])
      | Response response \<Rightarrow>
          (case headers response ''last-modified'' of
             None \<Rightarrow> (None, tr @ [Request HEAD u])
           | Some h \<Rightarrow> (strptime lib h, tr @ [Request HEAD u])))"

section \<open>Scanner.check\_component\<close>

definition directory_listing :: "string \<Rightarrow> vulnerability" where
  "directory_listing u =
     \<lparr>type = ''Directory Listing'',
      description = ''Directory listing is enabled, exposing sensitive information'',
      severity = ''Medium'', url = u\<rparr>"

definition exposed_documentation :: "string \<Rightarrow> vulnerability" where
  "exposed_documentation u =
     \<lparr>type = ''Exposed Documentation'',
      description = ''README files are exposed, revealing component information'',
      severity = ''Low'', url = u\<rparr>"

definition exposed_manifest :: "string \<Rightarrow> vulnerability" where
  "exposed_manifest u =
     \<lparr>type = ''Exposed Manifest'',
      description = ''Manifest files are exposed, revealing component details'',
      severity = ''Low'', url = u\<rparr>"

text \<open>
  The local variables of \<open>check_component\<close> that the loop assigns:
  \<open>found_paths\<close>, \<open>vulnerabilities\<close>, \<open>version\<close>, \<open>last_modified\<close>.
\<close>

type_synonym locals = "string set \<times> vulnerability list \<times> string option \<times> datetime option"

text \<open>One iteration of \<open>for path in paths\<close>.\<close>

fun check_path ::
  "session \<Rightarrow> library \<Rightarrow> scanner \<Rightarrow> string \<Rightarrow> locals \<Rightarrow> trace \<Rightarrow> (exn + locals) \<times> trace" where
  "check_path srv lib self path (found_paths, vulns, ver, modified) tr =
     (let u = urljoin lib (scan_config.url (config self)) path in
      case check_url srv self u 0 tr of
        (Inl e, tr1) \<Rightarrow> (Inl e, tr1)
      | (Inr status, tr1) \<Rightarrow>
          if status = Some 200 then
            (case check_directory_listing srv lib u tr1 of (listing, tr2) \<Rightarrow>
              (case check_readme_files srv lib self u tr2 of
                 (Inl e, tr3) \<Rightarrow> (Inl e, tr3)
               | (Inr readme, tr3) \<Rightarrow>
                   (case check_manifest_files srv lib self u tr3 of
                      (Inl e, tr4) \<Rightarrow> (Inl e, tr4)
                    | (Inr manifest, tr4) \<Rightarrow>
                        (case get_component_version srv lib self u tr4 of (ver', tr5) \<Rightarrow>
                          (case get_last_modified srv lib u tr5 of (modified', tr6) \<Rightarrow>
                             (Inr (insert path found_paths,
                                   vulns @ (if listing then [directory_listing u] else [])
                                         @ (if readme then [exposed_documentation u] else [])
                                         @ (if manifest then [exposed_manifest u] else []),
                                   ver', modified'), tr6))))))
          else (Inr (found_paths, vulns, ver, modified), tr1))"

fun check_paths ::
  "session \<Rightarrow> library \<Rightarrow> scanner \<Rightarrow> string list \<Rightarrow> locals \<Rightarrow> trace \<Rightarrow> (exn + locals) \<times> trace" where
  "check_paths srv lib self [] vars tr = (Inr vars, tr)"
| "check_paths srv lib self (path # rest) vars tr =
     (case check_path srv lib self path vars tr of
        (Inl e, tr1) \<Rightarrow> (Inl e, tr1)
      | (Inr vars1, tr1) \<Rightarrow> check_paths srv lib self rest vars1 tr1)"

definition component_paths :: "string \<Rightarrow> string list" where
  "component_paths c =
     [''/components/'' @ c @ ''/'',
      ''/administrator/components/'' @ c @ ''/'',
      ''/index.php?option='' @ c]"

definition check_component ::
  "session \<Rightarrow> library \<Rightarrow> scanner \<Rightarrow> string \<Rightarrow> trace \<Rightarrow> (exn + component option) \<times> trace" where
  "check_component srv lib self c tr =
     (case check_paths srv lib self (component_paths c) ({}, [], None, None) (tr @ [Begin c]) of
        (Inl e, tr1) \<Rightarrow> (Inl e, tr1)
      | (Inr (found_paths, vulns, ver, modified), tr1) \<Rightarrow>
          if found_paths \<noteq> {} then
            (Inr (Some \<lparr>name = c, paths = found_paths, vulnerabilities = vulns,
                           version = ver, last_modified = modified\<rparr>), tr1)
          else (Inr None, tr1))"

section \<open>The methods as coroutines\<close>

text \<open>
  The definitions above run one call from its start to its end. Inside
  \<open>asyncio.gather\<close> the calls of \<open>check_component\<close> for a chunk are interleaved: a
  coroutine runs until it awaits the session or \<open>asyncio.sleep\<close>, and while it waits the
  others run. For this a coroutine is the tree of what it does next: it returns, it
  raises, it awaits a request and continues with the outcome, or it sleeps and continues.
\<close>

datatype 'a co =
    Return 'a
  | Raise exn
  | Call http_method string "outcome \<Rightarrow> 'a co"
  | Pause nat "'a co"

text \<open>
  \<open>x = await m\<close> followed by \<open>f x\<close>: an exception of \<open>m\<close> leaves the caller.
  \<open>attempt m\<close> is \<open>await m\<close> inside \<open>try ... except Exception\<close>: the exception is a value.
\<close>

primrec await :: "'a co \<Rightarrow> ('a \<Rightarrow> 'b co) \<Rightarrow> 'b co" where
  "await (Return a) f = f a"
| "await (Raise e) f = Raise e"
| "await (Call m u k) f = Call m u (\<lambda>out. await (k out) f)"
| "await (Pause n p) f = Pause n (await p f)"

primrec attempt :: "'a co \<Rightarrow> (exn + 'a) co" where
  "attempt (Return a) = Return (Inr a)"
| "attempt (Raise e) = Return (Inl e)"
| "attempt (Call m u k) = Call m u (\<lambda>out. attempt (k out))"
| "attempt (Pause n p) = Pause n (attempt p)"

text \<open>
  The methods again, line by line as above, as coroutines. Of \<open>self\<close> they read
  \<open>self.config\<close> only.
\<close>

function check_url_co :: "scan_config \<Rightarrow> string \<Rightarrow> int \<Rightarrow> int option co" where
  "check_url_co cfg u retry_count =
     Call GET u (\<lambda>out.
       case out of
         Response response \<Rightarrow> Return (Some (status_code response))
       | Raises e \<Rightarrow>
           if e = RequestError then
             if retry_count < max_retries cfg then
               Pause 1 (check_url_co cfg u (retry_count + 1))
             else Return None
           else Raise e)"
  by pat_completeness auto
termination
  by (relation "measure (\<lambda>(cfg, u, retry_count). nat (max_retries cfg - retry_count))") auto

declare check_url_co.simps [simp del]

definition check_directory_listing_co :: "library \<Rightarrow> string \<Rightarrow> bool co" where
  "check_directory_listing_co lib u =
     Call GET u (\<lambda>out.
       case out of
         Response response \<Rightarrow>
           (case find_title lib (text_of response) of
              Tag _ \<Rightarrow> Return True
            | Missing \<Rightarrow> Return False
            | Raised \<Rightarrow> Return False)
       | Raises e \<Rightarrow> Return False)"

fun check_files_co :: "library \<Rightarrow> scan_config \<Rightarrow> string \<Rightarrow> string list \<Rightarrow> bool co" where
  "check_files_co lib cfg u [] = Return False"
| "check_files_co lib cfg u (path # rest) =
     await (check_url_co cfg (urljoin lib u path) 0) (\<lambda>status.
       if status = Some 200 then Return True
       else check_files_co lib cfg u rest)"

definition check_readme_files_co :: "library \<Rightarrow> scan_config \<Rightarrow> string \<Rightarrow> bool co" where
  "check_readme_files_co lib cfg u = check_files_co lib cfg u readme_paths"

definition check_manifest_files_co :: "library \<Rightarrow> scan_config \<Rightarrow> string \<Rightarrow> bool co" where
  "check_manifest_files_co lib cfg u = check_files_co lib cfg u manifest_paths"

definition get_component_version_co :: "library \<Rightarrow> scan_config \<Rightarrow> string \<Rightarrow> string option co" where
  "get_component_version_co lib cfg u =
     Call GET u (\<lambda>out.
       case out of
         Raises e \<Rightarrow> Return None
       | Response response \<Rightarrow>
           (case find_generator lib (text_of response) of
              Raised \<Rightarrow> Return None
            | Tag content \<Rightarrow> Return content
            | Missing \<Rightarrow>
                (let manifest_url = urljoin lib u ''manifest.xml'' in
                 await (attempt (check_url_co cfg manifest_url 0)) (\<lambda>r.
                   case r of
                     Inl e \<Rightarrow> Return None
                   | Inr status \<Rightarrow>
                       if status = Some 200 then
                         Call GET manifest_url (\<lambda>manifest_out.
                           case manifest_out of
                             Raises e \<Rightarrow> Return None
                           | Response manifest_response \<Rightarrow>
                               (case find_version lib (text_of manifest_response) of
                                  Tag version_text \<Rightarrow> Return (Some version_text)
                                | Missing \<Rightarrow> Return None
                                | Raised \<Rightarrow> Return None))
                       else Return None))))"

definition get_last_modified_co :: "library \<Rightarrow> string \<Rightarrow> datetime option co" where
  "get_last_modified_co lib u =
     Call HEAD u (\<lambda>out.
       case out of
         Raises e \<Rightarrow> Return None
       | Response response \<Rightarrow>
           (case headers response ''last-modified'' of
              None \<Rightarrow> Return None
            | Some h \<Rightarrow> Return (strptime lib h)))"

fun check_path_co :: "library \<Rightarrow> scan_config \<Rightarrow> string \<Rightarrow> locals \<Rightarrow> locals co" where
  "check_path_co lib cfg path (found_paths, vulns, ver, modified) =
     (let u = urljoin lib (scan_config.url cfg) path in
      await (check_url_co cfg u 0) (\<lambda>status.
        if status = Some 200 then
          await (check_directory_listing_co lib u) (\<lambda>listing.
          await (check_readme_files_co lib cfg u) (\<lambda>readme.
          await (check_manifest_files_co lib cfg u) (\<lambda>manifest.
          await (get_component_version_co lib cfg u) (\<lambda>ver'.
          await (get_last_modified_co lib u) (\<lambda>modified'.
            Return (insert path found_paths,
                    vulns @ (if listing then [directory_listing u] else [])
                          @ (if readme then [exposed_documentation u] else [])
                          @ (if manifest then [exposed_manifest u] else []),
                    ver', modified'))))))
        else Return (found_paths, vulns, ver, modified)))"

fun check_paths_co :: "library \<Rightarrow> scan_config \<Rightarrow> string list \<Rightarrow> locals \<Rightarrow> locals co" where
  "check_paths_co lib cfg [] vars = Return vars"
| "check_paths_co lib cfg (path # rest) vars =
     await (check_path_co lib cfg path vars) (\<lambda>vars1. check_paths_co lib cfg rest vars1)"

definition check_component_co :: "library \<Rightarrow> scan_config \<Rightarrow> string \<Rightarrow> component option co" where
  "check_component_co lib cfg c =
     await (check_paths_co lib cfg (component_paths c) ({}, [], None, None))
       (\<lambda>(found_paths, vulns, ver, modified).
          Return (if found_paths \<noteq> {} then
                    Some \<lparr>name = c, paths = found_paths, vulnerabilities = vulns,
                          version = ver, last_modified = modified\<rparr>
                  else None))"

subsection \<open>Running and resuming a coroutine\<close>

text \<open>
  A coroutine that runs alone, from its start to its end. An exchange with the session,
  request and response, is one event, and its outcome is what the session gives after
  all events before it.
\<close>

primrec run :: "session \<Rightarrow> 'a co \<Rightarrow> trace \<Rightarrow> (exn + 'a) \<times> trace" where
  "run srv (Return a) tr = (Inr a, tr)"
| "run srv (Raise e) tr = (Inl e, tr)"
| "run srv (Call m u k) tr = run srv (k (srv tr m u)) (tr @ [Request m u])"
| "run srv (Pause n p) tr = run srv p (tr @ [Sleep n])"

text \<open>
  One resumption of a coroutine that waits: its exchange or its sleep is over, and it
  runs until it waits again, returns or raises.
\<close>

fun resume :: "session \<Rightarrow> 'a co \<Rightarrow> trace \<Rightarrow> 'a co \<times> trace" where
  "resume srv (Call m u k) tr = (k (srv tr m u), tr @ [Request m u])"
| "resume srv (Pause n p) tr = (p, tr @ [Sleep n])"
| "resume srv (Return a) tr = (Return a, tr)"
| "resume srv (Raise e) tr = (Raise e, tr)"

fun waiting :: "'a co \<Rightarrow> bool" where
  "waiting (Call m u k) = True"
| "waiting (Pause n p) = True"
| "waiting (Return a) = False"
| "waiting (Raise e) = False"

section \<open>Scanner.scan\<close>

text \<open>
  \<open>range(0, stop, step)\<close> for a positive step, and the chunks
  \<open>components_db[i:i + chunk_size]\<close> that the loop of \<open>scan\<close> takes at these indices.
\<close>

definition range_step :: "nat \<Rightarrow> nat \<Rightarrow> nat list" where
  "range_step stop step = map (\<lambda>k. k * step) [0 ..< (stop + step - 1) div step]"

definition chunks :: "nat \<Rightarrow> 'a list \<Rightarrow> 'a list list" where
  "chunks chunk_size components_db =
     map (\<lambda>i. take chunk_size (drop i components_db))
       (range_step (length components_db) chunk_size)"

text \<open>
  \<open>await asyncio.gather(*tasks)\<close> makes a task of every coroutine of the chunk. The
  tasks start in the order of the chunk, each running until it first waits for the
  session; then the event loop resumes, again and again, a task whose exchange or sleep
  is over. The program does not determine which, so this order is the parameter \<open>sch\<close>:
  each of its numbers chooses, among the tasks that wait, the one that is resumed next.
  A schedule that ends before the tasks do is continued by \<open>finish\<close>, which runs them to
  their end in the order of the chunk; so every list is a schedule, and every
  interleaving of the tasks is the run of some list.

  \<open>return_exceptions\<close> is not set: the first exception that leaves a task is raised by
  \<open>gather\<close> at once, while the other tasks still wait, and \<open>scan\<close> does not catch it. What
  these tasks do until \<open>asyncio.run\<close> cancels them is not in the trace. When every task
  has returned, the results are in the order of the arguments.
\<close>

fun finish :: "session \<Rightarrow> 'a co list \<Rightarrow> trace \<Rightarrow> (exn + 'a list) \<times> trace" where
  "finish srv [] tr = (Inr [], tr)"
| "finish srv (p # ps) tr =
     (case run srv p tr of
        (Inl e, tr1) \<Rightarrow> (Inl e, tr1)
      | (Inr a, tr1) \<Rightarrow>
          (case finish srv ps tr1 of
             (Inl e, tr2) \<Rightarrow> (Inl e, tr2)
           | (Inr as, tr2) \<Rightarrow> (Inr (a # as), tr2)))"

fun interleave :: "session \<Rightarrow> nat list \<Rightarrow> 'a co list \<Rightarrow> trace \<Rightarrow> (exn + 'a list) \<times> trace" where
  "interleave srv [] tasks tr = finish srv tasks tr"
| "interleave srv (n # sch) tasks tr =
     (case filter (\<lambda>i. waiting (tasks ! i)) [0 ..< length tasks] of
        [] \<Rightarrow> finish srv tasks tr
      | i # is \<Rightarrow>
          (let j = (i # is) ! (n mod length (i # is)) in
           case resume srv (tasks ! j) tr of
             (p, tr1) \<Rightarrow>
               (case p of
                  Raise e \<Rightarrow> (Inl e, tr1)
                | _ \<Rightarrow> interleave srv sch (tasks[j := p]) tr1)))"

definition gather ::
  "session \<Rightarrow> library \<Rightarrow> scanner \<Rightarrow> nat list \<Rightarrow> string list \<Rightarrow> trace
     \<Rightarrow> (exn + component option list) \<times> trace" where
  "gather srv lib self sch chunk tr =
     interleave srv sch (map (check_component_co lib (config self)) chunk) (tr @ map Begin chunk)"

text \<open>\<open>for result in results: if result: self.components.append(result); progress.advance(task)\<close>\<close>

fun for_results :: "component option list \<Rightarrow> component list \<Rightarrow> trace \<Rightarrow> component list \<times> trace" where
  "for_results [] comps tr = (comps, tr)"
| "for_results (result # rest) comps tr =
     (case result of
        Some c \<Rightarrow> for_results rest (comps @ [c]) (tr @ [Advance])
      | None \<Rightarrow> for_results rest comps (tr @ [Advance]))"

text \<open>
  The loop over the chunks: nothing catches an exception of \<open>gather\<close>. \<open>schs\<close> has the
  schedule of each chunk, in the order of the chunks.
\<close>

fun scan_chunks ::
  "session \<Rightarrow> library \<Rightarrow> nat list list \<Rightarrow> string list list \<Rightarrow> scanner \<Rightarrow> trace
     \<Rightarrow> (exn + unit) \<times> scanner \<times> trace" where
  "scan_chunks srv lib schs [] self tr = (Inr (), self, tr)"
| "scan_chunks srv lib schs (chunk # rest) self tr =
     (case gather srv lib self (case schs of [] \<Rightarrow> [] | sch # _ \<Rightarrow> sch) chunk tr of
        (Inl e, tr1) \<Rightarrow> (Inl e, self, tr1)
      | (Inr results, tr1) \<Rightarrow>
          (case for_results results (scanner.components self) tr1 of
             (comps, tr2) \<Rightarrow>
               scan_chunks srv lib (tl schs) rest (self\<lparr>scanner.components := comps\<rparr>) tr2))"

text \<open>
  \<open>scan\<close>, with the clock reading \<open>now\<close> of \<open>datetime.now()\<close> and the list
  \<open>components_db\<close> that \<open>load_components_db()\<close> returned. \<open>range\<close> raises
  \<open>ValueError\<close> for step 0 and is empty for a negative step. Of the progress display
  only \<open>progress.advance\<close> is an event of the trace.
\<close>

definition scan ::
  "session \<Rightarrow> library \<Rightarrow> datetime \<Rightarrow> nat list list \<Rightarrow> string list \<Rightarrow> scanner \<Rightarrow> trace
     \<Rightarrow> (exn + unit) \<times> scanner \<times> trace" where
  "scan srv lib now schs components_db self tr =
     (let self1 = self\<lparr>start_time := Some now\<rparr>;
          chunk_size = threads (config self1)
      in if chunk_size = 0 then (Inl (Exception ''ValueError''), self1, tr)
         else if chunk_size < 0 then (Inr (), self1, tr)
         else scan_chunks srv lib schs (chunks (nat chunk_size) components_db) self1 tr)"

section \<open>Scanner.generate\_report and run\_scanner\<close>

text \<open>
  \<open>generate_report\<close>, with the clock reading \<open>now\<close> of its \<open>datetime.now()\<close>.
  \<open>end_time - self.start_time\<close> raises \<open>TypeError\<close> while \<open>start_time\<close> is \<open>None\<close>.
\<close>

definition generate_report :: "library \<Rightarrow> datetime \<Rightarrow> scanner \<Rightarrow> exn + scan_result" where
  "generate_report lib now self =
     (let end_time = now in
      case start_time self of
        None \<Rightarrow> Inl (Exception ''TypeError'')
      | Some start \<Rightarrow>
          (let duration = total_seconds lib (end_time - start) in
           Inr \<lparr>target_url = scan_config.url (config self),
                scan_time = start,
                duration = duration,
                components = scanner.components self,
                total_vulnerabilities =
                  sum_list (map (\<lambda>c. int (length (vulnerabilities c))) (scanner.components self)),
                scan_config = config self\<rparr>))"

text \<open>
  \<open>Scanner.__init__\<close>, and \<open>run_scanner\<close> with the two clock readings of the run. The
  session that \<open>__aenter__\<close> opens and \<open>__aexit__\<close> closes is the parameter \<open>srv\<close>.
\<close>

definition init_scanner :: "scan_config \<Rightarrow> scanner" where
  "init_scanner cfg = \<lparr>config = cfg, components = [], start_time = None\<rparr>"

definition run_scanner ::
  "session \<Rightarrow> library \<Rightarrow> scan_config \<Rightarrow> nat list list \<Rightarrow> string list \<Rightarrow> datetime \<Rightarrow> datetime
     \<Rightarrow> (exn + scan_result) \<times> trace" where
  "run_scanner srv lib cfg schs components_db t_scan t_report =
     (case scan srv lib t_scan schs components_db (init_scanner cfg) [] of
        (Inl e, scanner, tr) \<Rightarrow> (Inl e, tr)
      | (Inr _, scanner, tr) \<Rightarrow> (generate_report lib t_report scanner, tr))"

text \<open>A \<open>ScanConfig\<close> with the default values of the fields, and its range checks.\<close>

definition default_config :: "string \<Rightarrow> scan_config" where
  "default_config target =
     \<lparr>url = target, threads = 10, timeout = 5,
      user_agent = ''Mozilla/5.0 (Windows NT 10.0; Win64; x64) AppleWebKit/537.36 (KHTML, like Gecko) Chrome/120.0.0.0 Safari/537.36'',
      verify_ssl = False, max_retries = 3, output_file = None\<rparr>"

definition valid_config :: "scan_config \<Rightarrow> bool" where
  "valid_config cfg \<longleftrightarrow>
     1 \<le> threads cfg \<and> threads cfg \<le> 50 \<and>
     1 \<le> timeout cfg \<and> timeout cfg \<le> 30 \<and>
     1 \<le> max_retries cfg \<and> max_retries cfg \<le> 5"

section \<open>Notions used in the statements\<close>

text \<open>The attempts of a probe whose every request fails: n retries, each followed by
  the one-second sleep, then the last attempt.\<close>

fun attempts :: "string \<Rightarrow> nat \<Rightarrow> trace" where
  "attempts u 0 = [Request GET u]"
| "attempts u (Suc n) = Request GET u # Sleep 1 # attempts u n"

text \<open>The events of the network: requests and sleeps.\<close>

fun is_net :: "event \<Rightarrow> bool" where
  "is_net (Request m u) = True"
| "is_net (Sleep n) = True"
| "is_net Advance = False"
| "is_net (Begin c) = False"

text \<open>\<open>net_ext tr tr'\<close>: the trace \<open>tr'\<close> is \<open>tr\<close> followed by events of the network only.\<close>

definition net_ext :: "trace \<Rightarrow> trace \<Rightarrow> bool" where
  "net_ext tr tr' \<longleftrightarrow> (\<exists>evs. tr' = tr @ evs \<and> list_all is_net evs)"

text \<open>
  The trace at which the iteration for a found path, started at \<open>tr\<close>, calls
  \<open>get_component_version\<close>: after \<open>check_url\<close>, \<open>check_directory_listing\<close>,
  \<open>check_readme_files\<close> and \<open>check_manifest_files\<close>.
\<close>

definition version_point :: "session \<Rightarrow> library \<Rightarrow> scanner \<Rightarrow> string \<Rightarrow> trace \<Rightarrow> trace" where
  "version_point srv lib self u tr =
     snd (check_manifest_files srv lib self u
       (snd (check_readme_files srv lib self u
         (snd (check_directory_listing srv lib u
           (snd (check_url srv self u 0 tr)))))))"


text \<open>The components among the results, in the order of the results.\<close>

definition found :: "component option list \<Rightarrow> component list" where
  "found results = map the (filter (\<lambda>r. r \<noteq> None) results)"


text \<open>The starts of coroutines in a trace, in their order.\<close>

definition begins :: "trace \<Rightarrow> string list" where
  "begins tr = concat (map (\<lambda>e. case e of Begin c \<Rightarrow> [c] | _ \<Rightarrow> []) tr)"

text \<open>The number of progress increments in a trace.\<close>

definition advances :: "trace \<Rightarrow> nat" where
  "advances tr = length (filter (\<lambda>e. e = Advance) tr)"

text \<open>
  \<open>replay srv p ts\<close> is what the coroutine \<open>p\<close> has become after it was resumed once at
  each of the traces \<open>ts\<close>. \<open>resumed srv p tr tr' q\<close>: the coroutine \<open>p\<close> has become \<open>q\<close>
  by resumptions at moments of the run that led from the trace \<open>tr\<close> to the trace \<open>tr'\<close>.
\<close>

fun replay :: "session \<Rightarrow> 'a co \<Rightarrow> trace list \<Rightarrow> 'a co" where
  "replay srv p [] = p"
| "replay srv p (t # ts) = replay srv (fst (resume srv p t)) ts"



text \<open>The URL of a path, as the loop of \<open>check_component\<close> computes it.\<close>

definition path_url :: "library \<Rightarrow> scanner \<Rightarrow> string \<Rightarrow> string" where
  "path_url lib self path = urljoin lib (scan_config.url (config self)) path"

text \<open>
  In the iteration that starts at \<open>tr\<close> for a found path with URL \<open>u\<close>,
  \<open>get_component_version\<close> returns \<open>ver\<close>, then \<open>get_last_modified\<close> returns
  \<open>modified\<close>, and the iteration ends at \<open>tr'\<close>.
\<close>

definition extracted ::
  "session \<Rightarrow> library \<Rightarrow> scanner \<Rightarrow> string \<Rightarrow> trace \<Rightarrow> string option \<Rightarrow> datetime option \<Rightarrow> trace \<Rightarrow> bool" where
  "extracted srv lib self u tr ver modified tr' \<longleftrightarrow>
     (\<exists>tm. get_component_version srv lib self u (version_point srv lib self u tr) = (ver, tm)
         \<and> get_last_modified srv lib u tm = (modified, tr'))"



section \<open>Sessions and scanners of the examples\<close>

text \<open>A server that answers 404 to everything.\<close>

definition absent_session :: session where
  "absent_session tr m u = Response \<lparr>status_code = 404, text_of = [], headers = Map.empty\<rparr>"

text \<open>
  Library functions for the examples: \<open>urljoin\<close> appends, a page whose text is
  \<open>Index of /\<close> has the title searched for, the generator of a page is its text, the
  version of a manifest is its text, a date parses to the length of its text, and the
  seconds of a difference are the exact quotient (the examples have differences whose
  quotient is a \<open>float\<close>).
\<close>

definition plain_library :: library where
  "plain_library =
     \<lparr>urljoin = (\<lambda>base path. base @ path),
      find_title = (\<lambda>t. if t = ''Index of /'' then Tag () else Missing),
      find_generator = (\<lambda>t. if t = [] then Missing else Tag (Some t)),
      find_version = (\<lambda>t. Tag t),
      strptime = (\<lambda>s. Some (int (length s))),
      total_seconds = (\<lambda>d. real_of_int d / 1000000)\<rparr>"


text \<open>Scanners at the start of a run, with chunks of two candidates and of one.\<close>

definition two_threads :: scanner where
  "two_threads = init_scanner ((default_config ''http://t'')\<lparr>threads := 2\<rparr>)"


text \<open>
  A server on which the front-end path and the query-string path of the candidate \<open>c\<close>
  exist, with different page texts, and only the first has a \<open>Last-Modified\<close> header.
\<close>

definition versions_session :: session where
  "versions_session tr m u =
     (if u = ''http://t/components/c/'' then
        Response \<lparr>status_code = 200, text_of = ''1.0'',
                  headers = [''last-modified'' \<mapsto> ''Mon'']\<rparr>
      else if u = ''http://t/index.php?option=c'' then
        Response \<lparr>status_code = 200, text_of = ''3.0'', headers = Map.empty\<rparr>
      else Response \<lparr>status_code = 404, text_of = [], headers = Map.empty\<rparr>)"

text \<open>
  A server on which the front-end path of the candidate \<open>c\<close> exists, and the request for
  its query-string path raises an exception that is not an \<open>httpx.RequestError\<close>.
\<close>

definition failing_query_session :: session where
  "failing_query_session tr m u =
     (if u = ''http://t/components/c/'' then
        Response \<lparr>status_code = 200, text_of = ''1.0'', headers = Map.empty\<rparr>
      else if u = ''http://t/index.php?option=c'' then Raises (Exception ''InvalidURL'')
      else Response \<lparr>status_code = 404, text_of = [], headers = Map.empty\<rparr>)"

section \<open>Traces of the network operations\<close>

lemma net_ext_refl [simp]: "net_ext tr tr"
  by (simp add: net_ext_def)

lemma net_ext_trans: "net_ext tr tr1 \<Longrightarrow> net_ext tr1 tr2 \<Longrightarrow> net_ext tr tr2"
  by (auto simp: net_ext_def)

lemma net_ext_request [simp]: "net_ext tr (tr @ [Request m u])"
  by (simp add: net_ext_def)

lemma net_ext_step: "net_ext (tr @ [Request m u, Sleep n]) tr' \<Longrightarrow> net_ext tr tr'"
  by (auto simp: net_ext_def)

lemma net_ext_request_step: "net_ext (tr @ [Request m u]) tr' \<Longrightarrow> net_ext tr tr'"
  by (auto simp: net_ext_def)

lemma check_url_net: "net_ext tr (snd (check_url srv self u n tr))"
proof (induction srv self u n tr rule: check_url.induct)
  case (1 srv self u retry_count tr)
  show ?case
  proof (cases "srv tr GET u")
    case (Response r)
    then show ?thesis by (subst check_url.simps) simp
  next
    case (Raises e)
    show ?thesis
    proof (cases "e = RequestError \<and> retry_count < max_retries (config self)")
      case True
      with Raises "1.IH" have "net_ext (tr @ [Request GET u, Sleep 1])
         (snd (check_url srv self u (retry_count + 1) (tr @ [Request GET u, Sleep 1])))"
        by simp
      then have "net_ext tr (snd (check_url srv self u (retry_count + 1) (tr @ [Request GET u, Sleep 1])))"
        by (rule net_ext_step)
      with True Raises show ?thesis by (subst check_url.simps) simp
    next
      case False
      with Raises show ?thesis by (subst check_url.simps) auto
    qed
  qed
qed

lemma check_url_net': "check_url srv self u n tr = (r, tr') \<Longrightarrow> net_ext tr tr'"
  using check_url_net [of tr srv self u n] by simp

lemma check_files_net: "check_files srv lib self u ps tr = (r, tr') \<Longrightarrow> net_ext tr tr'"
proof (induction ps arbitrary: tr)
  case Nil
  then show ?case by simp
next
  case (Cons p ps)
  then show ?case
    by (auto split: prod.splits sum.splits if_splits
          dest!: check_url_net' intro: net_ext_trans)
qed

lemma check_directory_listing_net:
  "check_directory_listing srv lib u tr = (r, tr') \<Longrightarrow> net_ext tr tr'"
  by (auto simp: check_directory_listing_def split: outcome.splits lookup.splits)

lemma get_last_modified_net:
  "get_last_modified srv lib u tr = (r, tr') \<Longrightarrow> net_ext tr tr'"
  by (auto simp: get_last_modified_def split: outcome.splits option.splits)

lemma get_component_version_net:
  "get_component_version srv lib self u tr = (r, tr') \<Longrightarrow> net_ext tr tr'"
  by (auto simp: get_component_version_def Let_def
        split: outcome.splits lookup.splits prod.splits sum.splits if_splits
        dest!: check_url_net' intro: net_ext_trans net_ext_request_step)

section \<open>One iteration of the loop of check\_component\<close>

lemma check_path_status:
  assumes "check_path srv lib self path vars tr = (Inr vars', tr')"
  shows "\<exists>status. fst (check_url srv self (urljoin lib (scan_config.url (config self)) path) 0 tr) = Inr status"
proof (cases vars)
  case (fields found_paths vulns ver modified)
  obtain s tr1 where cu:
    "check_url srv self (urljoin lib (scan_config.url (config self)) path) 0 tr = (s, tr1)"
    by (cases "check_url srv self (urljoin lib (scan_config.url (config self)) path) 0 tr")
  with assms fields show ?thesis
    by (cases s) (simp_all add: Let_def)
qed

lemma check_path_not_found:
  assumes "check_path srv lib self path vars tr = (Inr vars', tr')"
    and "fst (check_url srv self (urljoin lib (scan_config.url (config self)) path) 0 tr) \<noteq> Inr (Some 200)"
  shows "vars' = vars \<and> tr' = snd (check_url srv self (urljoin lib (scan_config.url (config self)) path) 0 tr)"
proof (cases vars)
  case (fields found_paths vulns ver modified)
  obtain s tr1 where cu:
    "check_url srv self (urljoin lib (scan_config.url (config self)) path) 0 tr = (s, tr1)"
    by (cases "check_url srv self (urljoin lib (scan_config.url (config self)) path) 0 tr")
  with assms fields show ?thesis
    by (cases s) (simp_all add: Let_def)
qed

lemma check_path_found_unfold:
  assumes "check_url srv self (urljoin lib (scan_config.url (config self)) path) 0 tr = (Inr (Some 200), tr1)"
    and "check_directory_listing srv lib (urljoin lib (scan_config.url (config self)) path) tr1 = (listing, tr2)"
    and "check_readme_files srv lib self (urljoin lib (scan_config.url (config self)) path) tr2 = (r3, tr3)"
    and "check_manifest_files srv lib self (urljoin lib (scan_config.url (config self)) path) tr3 = (r4, tr4)"
    and "get_component_version srv lib self (urljoin lib (scan_config.url (config self)) path) tr4 = (ver', tr5)"
    and "get_last_modified srv lib (urljoin lib (scan_config.url (config self)) path) tr5 = (modified', tr6)"
  shows "check_path srv lib self path (found_paths, vulns, ver, modified) tr =
     (case r3 of
        Inl e \<Rightarrow> (Inl e, tr3)
      | Inr readme \<Rightarrow>
          (case r4 of
             Inl e \<Rightarrow> (Inl e, tr4)
           | Inr manifest \<Rightarrow>
               (Inr (insert path found_paths,
                     vulns @ (if listing then [directory_listing (urljoin lib (scan_config.url (config self)) path)] else [])
                           @ (if readme then [exposed_documentation (urljoin lib (scan_config.url (config self)) path)] else [])
                           @ (if manifest then [exposed_manifest (urljoin lib (scan_config.url (config self)) path)] else []),
                     ver', modified'), tr6)))"
  using assms by (simp add: Let_def split: sum.splits)

lemma version_point_eq:
  assumes "check_url srv self u 0 tr = (r1, tr1)"
    and "check_directory_listing srv lib u tr1 = (listing, tr2)"
    and "check_readme_files srv lib self u tr2 = (r3, tr3)"
    and "check_manifest_files srv lib self u tr3 = (r4, tr4)"
  shows "version_point srv lib self u tr = tr4"
  using assms by (simp add: version_point_def)

lemma check_path_found:
  assumes run: "check_path srv lib self path (found_paths, vulns, ver, modified) tr =
             (Inr (found_paths', vulns', ver', modified'), tr')"
    and found: "fst (check_url srv self (urljoin lib (scan_config.url (config self)) path) 0 tr) = Inr (Some 200)"
  shows "found_paths' = insert path found_paths \<and>
         (\<exists>tm. get_component_version srv lib self (urljoin lib (scan_config.url (config self)) path)
                  (version_point srv lib self (urljoin lib (scan_config.url (config self)) path) tr) = (ver', tm)
               \<and> get_last_modified srv lib (urljoin lib (scan_config.url (config self)) path) tm = (modified', tr'))"
proof -
  let ?u = "urljoin lib (scan_config.url (config self)) path"
  obtain tr1 where 1: "check_url srv self ?u 0 tr = (Inr (Some 200), tr1)"
    using found by (cases "check_url srv self ?u 0 tr") simp
  obtain listing tr2 where 2: "check_directory_listing srv lib ?u tr1 = (listing, tr2)"
    by (cases "check_directory_listing srv lib ?u tr1")
  obtain r3 tr3 where 3: "check_readme_files srv lib self ?u tr2 = (r3, tr3)"
    by (cases "check_readme_files srv lib self ?u tr2")
  obtain r4 tr4 where 4: "check_manifest_files srv lib self ?u tr3 = (r4, tr4)"
    by (cases "check_manifest_files srv lib self ?u tr3")
  obtain v tr5 where 5: "get_component_version srv lib self ?u tr4 = (v, tr5)"
    by (cases "get_component_version srv lib self ?u tr4")
  obtain m tr6 where 6: "get_last_modified srv lib ?u tr5 = (m, tr6)"
    by (cases "get_last_modified srv lib ?u tr5")
  note unfold = check_path_found_unfold [OF 1 2 3 4 5 6, of found_paths vulns ver modified]
  have vp: "version_point srv lib self ?u tr = tr4"
    by (rule version_point_eq [OF 1 2 3 4])
  from run unfold obtain readme manifest where "r3 = Inr readme" "r4 = Inr manifest"
    by (cases r3; cases r4) simp_all
  with run unfold have "found_paths' = insert path found_paths" "ver' = v" "modified' = m" "tr' = tr6"
    by simp_all
  with vp 5 6 show ?thesis
    by simp
qed

lemma check_path_net: "check_path srv lib self path vars tr = (r, tr') \<Longrightarrow> net_ext tr tr'"
proof -
  assume run: "check_path srv lib self path vars tr = (r, tr')"
  obtain found_paths vulns ver modified where vars: "vars = (found_paths, vulns, ver, modified)"
    by (cases vars)
  let ?u = "urljoin lib (scan_config.url (config self)) path"
  obtain r1 tr1 where 1: "check_url srv self ?u 0 tr = (r1, tr1)"
    by (cases "check_url srv self ?u 0 tr")
  then have n1: "net_ext tr tr1" by (rule check_url_net')
  show ?thesis
  proof (cases "r1 = Inr (Some 200)")
    case False
    with run vars 1 have "tr' = tr1"
      by (cases r1) (auto simp: Let_def)
    with n1 show ?thesis by simp
  next
    case True
    with 1 have 1: "check_url srv self ?u 0 tr = (Inr (Some 200), tr1)" by simp
    obtain listing tr2 where 2: "check_directory_listing srv lib ?u tr1 = (listing, tr2)"
      by (cases "check_directory_listing srv lib ?u tr1")
    obtain r3 tr3 where 3: "check_readme_files srv lib self ?u tr2 = (r3, tr3)"
      by (cases "check_readme_files srv lib self ?u tr2")
    obtain r4 tr4 where 4: "check_manifest_files srv lib self ?u tr3 = (r4, tr4)"
      by (cases "check_manifest_files srv lib self ?u tr3")
    obtain v tr5 where 5: "get_component_version srv lib self ?u tr4 = (v, tr5)"
      by (cases "get_component_version srv lib self ?u tr4")
    obtain m tr6 where 6: "get_last_modified srv lib ?u tr5 = (m, tr6)"
      by (cases "get_last_modified srv lib ?u tr5")
    note unfold = check_path_found_unfold [OF 1 2 3 4 5 6, of found_paths vulns ver modified]
    have n2: "net_ext tr tr2" using n1 2 by (blast intro: net_ext_trans check_directory_listing_net)
    from 3 have "net_ext tr2 tr3"
      unfolding check_readme_files_def by (rule check_files_net)
    with n2 have n3: "net_ext tr tr3" by (rule net_ext_trans)
    from 4 have "net_ext tr3 tr4"
      unfolding check_manifest_files_def by (rule check_files_net)
    with n3 have n4: "net_ext tr tr4" by (rule net_ext_trans)
    have n5: "net_ext tr tr5" using n4 5 by (blast intro: net_ext_trans get_component_version_net)
    have n6: "net_ext tr tr6" using n5 6 by (blast intro: net_ext_trans get_last_modified_net)
    from run vars unfold have "tr' = tr3 \<or> tr' = tr4 \<or> tr' = tr6"
      by (cases r3; cases r4) auto
    with n3 n4 n6 show ?thesis by auto
  qed
qed

lemma check_paths_net: "check_paths srv lib self ps vars tr = (r, tr') \<Longrightarrow> net_ext tr tr'"
proof (induction ps arbitrary: vars tr)
  case Nil
  then show ?case by simp
next
  case (Cons p ps)
  obtain r1 tr1 where 1: "check_path srv lib self p vars tr = (r1, tr1)"
    by (cases "check_path srv lib self p vars tr")
  then have n1: "net_ext tr tr1" by (rule check_path_net)
  show ?case
  proof (cases r1)
    case (Inl e)
    with Cons.prems 1 n1 show ?thesis by simp
  next
    case (Inr vars1)
    with Cons.prems 1 have "check_paths srv lib self ps vars1 tr1 = (r, tr')" by simp
    then have "net_ext tr1 tr'" by (rule Cons.IH)
    with n1 show ?thesis by (rule net_ext_trans)
  qed
qed

lemma check_component_trace:
  assumes "check_component srv lib self c tr = (r, tr')"
  shows "\<exists>evs. tr' = tr @ Begin c # evs \<and> list_all is_net evs"
proof -
  obtain r1 tr1 where 1:
    "check_paths srv lib self (component_paths c) ({}, [], None, None) (tr @ [Begin c]) = (r1, tr1)"
    by (cases "check_paths srv lib self (component_paths c) ({}, [], None, None) (tr @ [Begin c])")
  then have n: "net_ext (tr @ [Begin c]) tr1" by (rule check_paths_net)
  from assms 1 have "tr' = tr1"
    by (cases r1) (auto simp: check_component_def split: prod.splits if_splits)
  with n show ?thesis by (auto simp: net_ext_def)
qed

section \<open>Exceptions that leave check\_component\<close>

lemma check_url_Inl:
  "check_url srv self u n tr = (Inl e, tr') \<Longrightarrow> e \<noteq> RequestError \<and> (\<exists>t. srv t GET u = Raises e)"
proof (induction srv self u n tr rule: check_url.induct)
  case (1 srv self u retry_count tr)
  show ?case
  proof (cases "srv tr GET u")
    case (Response r)
    with "1.prems" show ?thesis by (subst (asm) check_url.simps) simp
  next
    case (Raises e1)
    show ?thesis
    proof (cases "e1 = RequestError")
      case True
      show ?thesis
      proof (cases "retry_count < max_retries (config self)")
        case retry: True
        with "1.prems" Raises True have
          "check_url srv self u (retry_count + 1) (tr @ [Request GET u, Sleep 1]) = (Inl e, tr')"
          by (subst (asm) check_url.simps) simp
        with "1.IH" [OF Raises True retry] show ?thesis by simp
      next
        case False
        with "1.prems" Raises True show ?thesis by (subst (asm) check_url.simps) simp
      qed
    next
      case False
      with "1.prems" Raises have "e = e1" by (subst (asm) check_url.simps) simp
      with False Raises show ?thesis by blast
    qed
  qed
qed

lemma check_files_Inl:
  "check_files srv lib self u ps tr = (Inl e, tr') \<Longrightarrow>
     e \<noteq> RequestError \<and> (\<exists>t v. srv t GET v = Raises e)"
proof (induction ps arbitrary: tr)
  case Nil
  then show ?case by simp
next
  case (Cons p ps)
  obtain r1 tr1 where 1: "check_url srv self (urljoin lib u p) 0 tr = (r1, tr1)"
    by (cases "check_url srv self (urljoin lib u p) 0 tr")
  show ?case
  proof (cases r1)
    case (Inl e1)
    with Cons.prems 1 have "e1 = e" by simp
    with 1 Inl check_url_Inl [of srv self "urljoin lib u p" 0 tr e tr1] show ?thesis by blast
  next
    case (Inr status)
    with Cons.prems 1 have "check_files srv lib self u ps tr1 = (Inl e, tr')"
      by (simp split: if_splits)
    then show ?thesis by (rule Cons.IH)
  qed
qed

lemma check_path_Inl:
  assumes run: "check_path srv lib self path vars tr = (Inl e, tr')"
  shows "e \<noteq> RequestError \<and> (\<exists>t v. srv t GET v = Raises e)"
proof -
  obtain found_paths vulns ver modified where vars: "vars = (found_paths, vulns, ver, modified)"
    by (cases vars)
  let ?u = "urljoin lib (scan_config.url (config self)) path"
  obtain r1 tr1 where 1: "check_url srv self ?u 0 tr = (r1, tr1)"
    by (cases "check_url srv self ?u 0 tr")
  show ?thesis
  proof (cases r1)
    case (Inl e1)
    with run vars 1 have "e1 = e" by (simp add: Let_def)
    with 1 Inl check_url_Inl [of srv self ?u 0 tr e tr1] show ?thesis by blast
  next
    case (Inr status)
    with run vars 1 have status: "status = Some 200"
      by (simp add: Let_def split: if_splits)
    with 1 Inr have 1: "check_url srv self ?u 0 tr = (Inr (Some 200), tr1)" by simp
    obtain listing tr2 where 2: "check_directory_listing srv lib ?u tr1 = (listing, tr2)"
      by (cases "check_directory_listing srv lib ?u tr1")
    obtain r3 tr3 where 3: "check_readme_files srv lib self ?u tr2 = (r3, tr3)"
      by (cases "check_readme_files srv lib self ?u tr2")
    obtain r4 tr4 where 4: "check_manifest_files srv lib self ?u tr3 = (r4, tr4)"
      by (cases "check_manifest_files srv lib self ?u tr3")
    obtain v tr5 where 5: "get_component_version srv lib self ?u tr4 = (v, tr5)"
      by (cases "get_component_version srv lib self ?u tr4")
    obtain m tr6 where 6: "get_last_modified srv lib ?u tr5 = (m, tr6)"
      by (cases "get_last_modified srv lib ?u tr5")
    note unfold = check_path_found_unfold [OF 1 2 3 4 5 6, of found_paths vulns ver modified]
    from run vars unfold have "r3 = Inl e \<or> r4 = Inl e"
      by (cases r3; cases r4) auto
    then show ?thesis
    proof
      assume "r3 = Inl e"
      with 3 show ?thesis
        unfolding check_readme_files_def by (blast dest: check_files_Inl)
    next
      assume "r4 = Inl e"
      with 4 show ?thesis
        unfolding check_manifest_files_def by (blast dest: check_files_Inl)
    qed
  qed
qed

lemma check_paths_Inl:
  "check_paths srv lib self ps vars tr = (Inl e, tr') \<Longrightarrow>
     e \<noteq> RequestError \<and> (\<exists>t v. srv t GET v = Raises e)"
proof (induction ps arbitrary: vars tr)
  case Nil
  then show ?case by simp
next
  case (Cons p ps)
  obtain r1 tr1 where 1: "check_path srv lib self p vars tr = (r1, tr1)"
    by (cases "check_path srv lib self p vars tr")
  show ?case
  proof (cases r1)
    case (Inl e1)
    with Cons.prems 1 have "e1 = e" by simp
    with 1 Inl show ?thesis by (blast dest: check_path_Inl)
  next
    case (Inr vars1)
    with Cons.prems 1 have "check_paths srv lib self ps vars1 tr1 = (Inl e, tr')" by simp
    then show ?thesis by (rule Cons.IH)
  qed
qed

lemma check_component_Inl:
  assumes "check_component srv lib self c tr = (Inl e, tr')"
  shows "e \<noteq> RequestError \<and> (\<exists>t v. srv t GET v = Raises e)"
proof -
  obtain r1 tr1 where 1:
    "check_paths srv lib self (component_paths c) ({}, [], None, None) (tr @ [Begin c]) = (r1, tr1)"
    by (cases "check_paths srv lib self (component_paths c) ({}, [], None, None) (tr @ [Begin c])")
  show ?thesis
  proof (cases r1)
    case (Inl e1)
    with assms 1 have "e1 = e" by (simp add: check_component_def)
    with 1 Inl show ?thesis by (blast dest: check_paths_Inl)
  next
    case (Inr vars)
    with assms 1 show ?thesis
      by (cases vars) (simp add: check_component_def split: if_splits)
  qed
qed


section \<open>The coroutines, run alone, are the methods\<close>











section \<open>Resumptions\<close>


lemma replay_Return [simp]: "replay srv (Return a) ts = Return a"
  by (induction ts) simp_all

lemma replay_Raise [simp]: "replay srv (Raise e) ts = Raise e"
  by (induction ts) simp_all









section \<open>The interleaving of gather\<close>








section \<open>What a coroutine returns and raises\<close>



















section \<open>gather and the loop over the results\<close>




section \<open>The loop over the chunks\<close>






section \<open>Starts and progress increments in a trace\<close>

lemma begins_append [simp]: "begins (xs @ ys) = begins xs @ begins ys"
  by (simp add: begins_def)

lemma begins_map_Begin [simp]: "begins (map Begin cs) = cs"
  by (induction cs) (simp_all add: begins_def)

lemma begins_net [simp]: "list_all is_net evs \<Longrightarrow> begins evs = []"
proof (induction evs)
  case Nil
  then show ?case by (simp add: begins_def)
next
  case (Cons e evs)
  then show ?case by (cases e) (simp_all add: begins_def)
qed

lemma begins_replicate_Advance [simp]: "begins (replicate n Advance) = []"
  by (induction n) (simp_all add: begins_def)

lemma advances_append [simp]: "advances (xs @ ys) = advances xs + advances ys"
  by (simp add: advances_def)

lemma advances_map_Begin [simp]: "advances (map Begin cs) = 0"
  by (induction cs) (simp_all add: advances_def)

lemma advances_net [simp]: "list_all is_net evs \<Longrightarrow> advances evs = 0"
proof (induction evs)
  case Nil
  then show ?case by (simp add: advances_def)
next
  case (Cons e evs)
  then show ?case by (cases e) (simp_all add: advances_def)
qed

lemma advances_replicate_Advance [simp]: "advances (replicate n Advance) = n"
  by (induction n) (simp_all add: advances_def)



section \<open>Chunks\<close>













section \<open>The three iterations of check\_component\<close>

lemma check_path_step:
  assumes run: "check_path srv lib self path (found_paths, vulns, ver, modified) tr =
             (Inr (found_paths', vulns', ver', modified'), tr')"
  shows "\<exists>s. fst (check_url srv self (urljoin lib (scan_config.url (config self)) path) 0 tr) = Inr s
     \<and> found_paths' = (if s = Some 200 then insert path found_paths else found_paths)
     \<and> (if s = Some 200
         then extracted srv lib self (urljoin lib (scan_config.url (config self)) path) tr ver' modified' tr'
         else ver' = ver \<and> modified' = modified)"
proof -
  let ?u = "urljoin lib (scan_config.url (config self)) path"
  from check_path_status [OF run] obtain s where s: "fst (check_url srv self ?u 0 tr) = Inr s"
    by blast
  show ?thesis
  proof (cases "s = Some 200")
    case True
    with s have "fst (check_url srv self ?u 0 tr) = Inr (Some 200)" by simp
    from check_path_found [OF run this] s True show ?thesis
      by (auto simp: extracted_def)
  next
    case False
    with s have "fst (check_url srv self ?u 0 tr) \<noteq> Inr (Some 200)" by simp
    from check_path_not_found [OF run this] s False show ?thesis
      by auto
  qed
qed

lemma check_component_run:
  assumes "check_component srv lib self c tr = (Inr result, tr')"
  shows "\<exists>vars1 vars2 f v ver m tr1 tr2.
     check_path srv lib self (''/components/'' @ c @ ''/'') ({}, [], None, None) (tr @ [Begin c])
       = (Inr vars1, tr1)
   \<and> check_path srv lib self (''/administrator/components/'' @ c @ ''/'') vars1 tr1 = (Inr vars2, tr2)
   \<and> check_path srv lib self (''/index.php?option='' @ c) vars2 tr2 = (Inr (f, v, ver, m), tr')
   \<and> result = (if f \<noteq> {} then Some \<lparr>name = c, paths = f, vulnerabilities = v,
                   version = ver, last_modified = m\<rparr> else None)"
proof -
  let ?p1 = "''/components/'' @ c @ ''/''"
  let ?p2 = "''/administrator/components/'' @ c @ ''/''"
  let ?p3 = "''/index.php?option='' @ c"
  obtain r1 tr1 where 1: "check_path srv lib self ?p1 ({}, [], None, None) (tr @ [Begin c]) = (r1, tr1)"
    by (cases "check_path srv lib self ?p1 ({}, [], None, None) (tr @ [Begin c])")
  show ?thesis
  proof (cases r1)
    case (Inl e)
    with assms 1 show ?thesis
      by (simp add: check_component_def component_paths_def)
  next
    case r1: (Inr vars1)
    obtain r2 tr2 where 2: "check_path srv lib self ?p2 vars1 tr1 = (r2, tr2)"
      by (cases "check_path srv lib self ?p2 vars1 tr1")
    show ?thesis
    proof (cases r2)
      case (Inl e)
      with assms 1 r1 2 show ?thesis
        by (simp add: check_component_def component_paths_def)
    next
      case r2: (Inr vars2)
      obtain r3 tr3 where 3: "check_path srv lib self ?p3 vars2 tr2 = (r3, tr3)"
        by (cases "check_path srv lib self ?p3 vars2 tr2")
      show ?thesis
      proof (cases r3)
        case (Inl e)
        with assms 1 r1 2 r2 3 show ?thesis
          by (simp add: check_component_def component_paths_def)
      next
        case r3: (Inr vars3)
        obtain f v ver m where vars3: "vars3 = (f, v, ver, m)"
          by (cases vars3)
        from assms 1 r1 2 r2 3 r3 vars3 have
          "tr' = tr3" and "result = (if f \<noteq> {} then Some \<lparr>name = c, paths = f, vulnerabilities = v,
                   version = ver, last_modified = m\<rparr> else None)"
          by (auto simp: check_component_def component_paths_def split: if_splits)
        with 1 r1 2 r2 3 r3 vars3 show ?thesis by blast
      qed
    qed
  qed
qed

lemma check_component_steps:
  assumes "check_component srv lib self c tr = (Inr result, tr')"
  shows "\<exists>s1 s2 s3 vars1 vars2 tr1 tr2 f v ver m.
     fst (check_url srv self (path_url lib self (''/components/'' @ c @ ''/'')) 0 (tr @ [Begin c])) = Inr s1
   \<and> check_path srv lib self (''/components/'' @ c @ ''/'') ({}, [], None, None) (tr @ [Begin c])
       = (Inr vars1, tr1)
   \<and> fst (check_url srv self (path_url lib self (''/administrator/components/'' @ c @ ''/'')) 0 tr1) = Inr s2
   \<and> check_path srv lib self (''/administrator/components/'' @ c @ ''/'') vars1 tr1 = (Inr vars2, tr2)
   \<and> fst (check_url srv self (path_url lib self (''/index.php?option='' @ c)) 0 tr2) = Inr s3
   \<and> check_path srv lib self (''/index.php?option='' @ c) vars2 tr2 = (Inr (f, v, ver, m), tr')
   \<and> result = (if f \<noteq> {} then Some \<lparr>name = c, paths = f, vulnerabilities = v,
                   version = ver, last_modified = m\<rparr> else None)
   \<and> f = {p. p = ''/components/'' @ c @ ''/'' \<and> s1 = Some 200
            \<or> p = ''/administrator/components/'' @ c @ ''/'' \<and> s2 = Some 200
            \<or> p = ''/index.php?option='' @ c \<and> s3 = Some 200}
   \<and> (s3 = Some 200 \<longrightarrow>
        extracted srv lib self (path_url lib self (''/index.php?option='' @ c)) tr2 ver m tr')
   \<and> (s3 \<noteq> Some 200 \<and> s2 = Some 200 \<longrightarrow>
        extracted srv lib self (path_url lib self (''/administrator/components/'' @ c @ ''/'')) tr1 ver m tr2)
   \<and> (s3 \<noteq> Some 200 \<and> s2 \<noteq> Some 200 \<and> s1 = Some 200 \<longrightarrow>
        extracted srv lib self (path_url lib self (''/components/'' @ c @ ''/'')) (tr @ [Begin c]) ver m tr1)"
proof -
  let ?p1 = "''/components/'' @ c @ ''/''"
  let ?p2 = "''/administrator/components/'' @ c @ ''/''"
  let ?p3 = "''/index.php?option='' @ c"
  from check_component_run [OF assms] obtain vars1 vars2 f v ver m tr1 tr2 where
    1: "check_path srv lib self ?p1 ({}, [], None, None) (tr @ [Begin c]) = (Inr vars1, tr1)"
    and 2: "check_path srv lib self ?p2 vars1 tr1 = (Inr vars2, tr2)"
    and 3: "check_path srv lib self ?p3 vars2 tr2 = (Inr (f, v, ver, m), tr')"
    and res: "result = (if f \<noteq> {} then Some \<lparr>name = c, paths = f, vulnerabilities = v,
                   version = ver, last_modified = m\<rparr> else None)"
    by blast
  obtain f1 v1 ver1 m1 where vars1: "vars1 = (f1, v1, ver1, m1)" by (cases vars1)
  obtain f2 v2 ver2 m2 where vars2: "vars2 = (f2, v2, ver2, m2)" by (cases vars2)
  from check_path_step [OF 1 [unfolded vars1]] obtain s1 where
    s1: "fst (check_url srv self (path_url lib self ?p1) 0 (tr @ [Begin c])) = Inr s1"
    and f1: "f1 = (if s1 = Some 200 then {?p1} else {})"
    and e1: "if s1 = Some 200
         then extracted srv lib self (path_url lib self ?p1) (tr @ [Begin c]) ver1 m1 tr1
         else ver1 = None \<and> m1 = None"
    unfolding path_url_def by blast
  from check_path_step [OF 2 [unfolded vars1 vars2]] obtain s2 where
    s2: "fst (check_url srv self (path_url lib self ?p2) 0 tr1) = Inr s2"
    and f2: "f2 = (if s2 = Some 200 then insert ?p2 f1 else f1)"
    and e2: "if s2 = Some 200
         then extracted srv lib self (path_url lib self ?p2) tr1 ver2 m2 tr2
         else ver2 = ver1 \<and> m2 = m1"
    unfolding path_url_def by blast
  from check_path_step [OF 3 [unfolded vars2]] obtain s3 where
    s3: "fst (check_url srv self (path_url lib self ?p3) 0 tr2) = Inr s3"
    and f3: "f = (if s3 = Some 200 then insert ?p3 f2 else f2)"
    and e3: "if s3 = Some 200
         then extracted srv lib self (path_url lib self ?p3) tr2 ver m tr'
         else ver = ver2 \<and> m = m2"
    unfolding path_url_def by blast
  have f: "f = {p. p = ?p1 \<and> s1 = Some 200 \<or> p = ?p2 \<and> s2 = Some 200 \<or> p = ?p3 \<and> s3 = Some 200}"
    unfolding f3 f2 f1 by auto
  have x3: "s3 = Some 200 \<longrightarrow> extracted srv lib self (path_url lib self ?p3) tr2 ver m tr'"
    using e3 by (auto split: if_splits)
  have x2: "s3 \<noteq> Some 200 \<and> s2 = Some 200 \<longrightarrow>
        extracted srv lib self (path_url lib self ?p2) tr1 ver m tr2"
    using e3 e2 by (auto split: if_splits)
  have x1: "s3 \<noteq> Some 200 \<and> s2 \<noteq> Some 200 \<and> s1 = Some 200 \<longrightarrow>
        extracted srv lib self (path_url lib self ?p1) (tr @ [Begin c]) ver m tr1"
    using e3 e2 e1 by (auto split: if_splits)
  from s1 1 s2 2 s3 3 res f x3 x2 x1 show ?thesis by blast
qed

section \<open>Properties of check\_url\<close>

lemma check_url_all_fail:
  "\<forall>tr'. srv tr' GET u = Raises RequestError \<Longrightarrow>
   check_url srv self u retry_count tr =
     (Inr None, tr @ attempts u (nat (max_retries (config self) - retry_count)))"
proof (induction srv self u retry_count tr rule: check_url.induct)
  case (1 srv self u retry_count tr)
  from "1.prems" have fail: "srv tr GET u = Raises RequestError"
    by simp
  show ?case
  proof (cases "retry_count < max_retries (config self)")
    case True
    then have steps: "nat (max_retries (config self) - retry_count) =
               Suc (nat (max_retries (config self) - (retry_count + 1)))"
      by simp
    have "check_url srv self u retry_count tr =
          check_url srv self u (retry_count + 1) (tr @ [Request GET u, Sleep 1])"
      by (subst check_url.simps) (simp add: fail True)
    also have "\<dots> = (Inr None, (tr @ [Request GET u, Sleep 1]) @
                 attempts u (nat (max_retries (config self) - (retry_count + 1))))"
      using "1.IH" [OF fail refl True "1.prems"] .
    finally show ?thesis
      by (simp add: steps)
  next
    case False
    then show ?thesis
      by (subst check_url.simps) (simp add: fail)
  qed
qed

lemma requests_attempts: "length (filter (\<lambda>e. e = Request GET u) (attempts u n)) = Suc n"
  by (induction n) simp_all

lemma sleeps_attempts: "length (filter (\<lambda>e. e = Sleep 1) (attempts u n)) = n"
  by (induction n) simp_all

lemma set_attempts: "set (attempts u n) \<subseteq> {Request GET u, Sleep 1}"
  by (induction n) auto

text \<open>
  C2. If every GET of the URL fails at the transport level, \<open>check_url\<close> returns
  \<open>None\<close> (no status, no exception) after exactly \<open>max_retries + 1\<close> requests, with a
  one-second sleep after each request but the last, and nothing else.
\<close>

theorem check_url_retry_bound:
  assumes "\<forall>tr'. srv tr' GET u = Raises RequestError"
    and "0 \<le> max_retries (config self)"
  shows "\<exists>evs. check_url srv self u 0 tr = (Inr None, tr @ evs)
           \<and> evs = attempts u (nat (max_retries (config self)))
           \<and> int (length (filter (\<lambda>e. e = Request GET u) evs)) = max_retries (config self) + 1
           \<and> int (length (filter (\<lambda>e. e = Sleep 1) evs)) = max_retries (config self)
           \<and> set evs \<subseteq> {Request GET u, Sleep 1}"
  using assms check_url_all_fail [of srv u self 0 tr]
  by (simp del: One_nat_def add: requests_attempts sleeps_attempts set_attempts)

theorem check_url_retry_bound_witness:
  "(\<forall>tr'. (\<lambda>_ _ _. Raises RequestError) tr' GET ''http://t/x'' = Raises RequestError)
   \<and> 0 \<le> max_retries (config (init_scanner (default_config ''http://t'')))
   \<and> check_url (\<lambda>_ _ _. Raises RequestError) (init_scanner (default_config ''http://t''))
         ''http://t/x'' 0 [Begin ''x''] =
       (Inr None,
        [Begin ''x'', Request GET ''http://t/x'', Sleep 1, Request GET ''http://t/x'', Sleep 1,
         Request GET ''http://t/x'', Sleep 1, Request GET ''http://t/x''])"
  using check_url_retry_bound [of "\<lambda>_ _ _. Raises RequestError" "''http://t/x''"
      "init_scanner (default_config ''http://t'')" "[Begin ''x'']"]
  by (simp add: init_scanner_def default_config_def eval_nat_numeral)



section \<open>Properties of generate\_report\<close>

text \<open>
  C1. In every report that \<open>generate_report\<close> produces, \<open>total_vulnerabilities\<close> is the
  sum of the lengths of the \<open>vulnerabilities\<close> lists of the report's components, which
  is the number of vulnerabilities the report lists.
\<close>

theorem generate_report_total_vulnerabilities:
  assumes "generate_report lib now self = Inr report"
  shows "total_vulnerabilities report =
           (\<Sum>c\<leftarrow>scan_result.components report. int (length (vulnerabilities c)))
         \<and> total_vulnerabilities report =
           int (length (concat (map vulnerabilities (scan_result.components report))))"
proof -
  from assms obtain start where
    report: "report =
      \<lparr>target_url = scan_config.url (config self), scan_time = start,
       duration = total_seconds lib (now - start),
       components = scanner.components self,
       total_vulnerabilities =
         sum_list (map (\<lambda>c. int (length (vulnerabilities c))) (scanner.components self)),
       scan_config = config self\<rparr>"
    by (auto simp: generate_report_def Let_def split: option.splits)
  have "int (length (concat (map vulnerabilities cs))) =
        (\<Sum>c\<leftarrow>cs. int (length (vulnerabilities c)))" for cs :: "component list"
    by (induction cs) simp_all
  with report show ?thesis
    by simp
qed

theorem generate_report_total_vulnerabilities_witness:
  "generate_report plain_library 2500000
     \<lparr>config = default_config ''http://t'',
      components =
        [\<lparr>name = ''com_users'', paths = {''/components/com_users/''},
          vulnerabilities = [directory_listing ''u'', exposed_documentation ''u''],
          version = None, last_modified = None\<rparr>,
         \<lparr>name = ''com_content'', paths = {''/index.php?option=com_content''},
          vulnerabilities = [exposed_manifest ''v''],
          version = Some ''4.2'', last_modified = None\<rparr>],
      start_time = Some 0\<rparr> =
   Inr \<lparr>target_url = ''http://t'', scan_time = 0, duration = 5 / 2,
        components =
          [\<lparr>name = ''com_users'', paths = {''/components/com_users/''},
            vulnerabilities = [directory_listing ''u'', exposed_documentation ''u''],
            version = None, last_modified = None\<rparr>,
           \<lparr>name = ''com_content'', paths = {''/index.php?option=com_content''},
            vulnerabilities = [exposed_manifest ''v''],
            version = Some ''4.2'', last_modified = None\<rparr>],
        total_vulnerabilities = 3,
        scan_config = default_config ''http://t''\<rparr>
   \<and> total_vulnerabilities
        \<lparr>target_url = ''http://t'', scan_time = 0, duration = 5 / 2,
         components =
           [\<lparr>name = ''com_users'', paths = {''/components/com_users/''},
             vulnerabilities = [directory_listing ''u'', exposed_documentation ''u''],
             version = None, last_modified = None\<rparr>,
            \<lparr>name = ''com_content'', paths = {''/index.php?option=com_content''},
             vulnerabilities = [exposed_manifest ''v''],
             version = Some ''4.2'', last_modified = None\<rparr>],
         total_vulnerabilities = 3,
         scan_config = default_config ''http://t''\<rparr> = 2 + 1"
proof -
  have report: "generate_report plain_library 2500000
     \<lparr>config = default_config ''http://t'',
      components =
        [\<lparr>name = ''com_users'', paths = {''/components/com_users/''},
          vulnerabilities = [directory_listing ''u'', exposed_documentation ''u''],
          version = None, last_modified = None\<rparr>,
         \<lparr>name = ''com_content'', paths = {''/index.php?option=com_content''},
          vulnerabilities = [exposed_manifest ''v''],
          version = Some ''4.2'', last_modified = None\<rparr>],
      start_time = Some 0\<rparr> =
   Inr \<lparr>target_url = ''http://t'', scan_time = 0, duration = 5 / 2,
        components =
          [\<lparr>name = ''com_users'', paths = {''/components/com_users/''},
            vulnerabilities = [directory_listing ''u'', exposed_documentation ''u''],
            version = None, last_modified = None\<rparr>,
           \<lparr>name = ''com_content'', paths = {''/index.php?option=com_content''},
            vulnerabilities = [exposed_manifest ''v''],
            version = Some ''4.2'', last_modified = None\<rparr>],
        total_vulnerabilities = 3,
        scan_config = default_config ''http://t''\<rparr>"
    by (simp add: generate_report_def plain_library_def default_config_def)
  from generate_report_total_vulnerabilities [OF report] report show ?thesis
    by simp
qed

text \<open>
  C8, as the claim states it, fails: \<open>generate_report\<close> reads the clock, so two calls on
  the same configuration, start time and components differ in \<open>duration\<close>.
\<close>

theorem generate_report_clock_counterexample:
  "generate_report plain_library 1000000
     \<lparr>config = default_config ''http://t'', components = [], start_time = Some 0\<rparr> \<noteq>
   generate_report plain_library 2000000
     \<lparr>config = default_config ''http://t'', components = [], start_time = Some 0\<rparr>"
  by (simp add: generate_report_def plain_library_def)

text \<open>
  C8, amended. Two calls of \<open>generate_report\<close> on the same configuration, start time and
  components, at any two clock readings, give reports that agree in the target, the scan
  time, the components, the number of vulnerabilities and the configuration, each as the
  inputs determine it; the duration of each report is \<open>total_seconds\<close> of the time from
  the start to its own clock reading, and this field alone can differ.
  \<open>generate_report\<close> sends no request: \<open>run_scanner\<close> ends with the trace \<open>scan\<close> left.
\<close>

theorem generate_report_deterministic:
  assumes "generate_report lib now \<lparr>config = cfg, components = comps, start_time = start\<rparr> = Inr r"
    and "generate_report lib now' \<lparr>config = cfg, components = comps, start_time = start\<rparr> = Inr r'"
  shows "(\<exists>t. start = Some t
           \<and> r = \<lparr>target_url = scan_config.url cfg, scan_time = t,
                   duration = total_seconds lib (now - t), components = comps,
                   total_vulnerabilities = (\<Sum>c\<leftarrow>comps. int (length (vulnerabilities c))),
                   scan_config = cfg\<rparr>
           \<and> r' = r\<lparr>duration := total_seconds lib (now' - t)\<rparr>)
         \<and> snd (run_scanner srv lib cfg schs components_db t_scan now) =
             snd (snd (scan srv lib t_scan schs components_db (init_scanner cfg) []))"
proof -
  from assms obtain t where start: "start = Some t"
    by (auto simp: generate_report_def split: option.splits)
  from assms(1) start have r: "r = \<lparr>target_url = scan_config.url cfg, scan_time = t,
                 duration = total_seconds lib (now - t), components = comps,
                 total_vulnerabilities = (\<Sum>c\<leftarrow>comps. int (length (vulnerabilities c))),
                 scan_config = cfg\<rparr>"
    by (auto simp: generate_report_def Let_def)
  from assms(2) start r have r': "r' = r\<lparr>duration := total_seconds lib (now' - t)\<rparr>"
    by (auto simp: generate_report_def Let_def)
  have "snd (run_scanner srv lib cfg schs components_db t_scan now) =
      snd (snd (scan srv lib t_scan schs components_db (init_scanner cfg) []))"
    by (simp add: run_scanner_def split: prod.splits sum.splits)
  with start r r' show ?thesis
    by blast
qed

theorem generate_report_deterministic_witness:
  "generate_report plain_library 1000000
     \<lparr>config = default_config ''http://t'', components = [], start_time = Some 0\<rparr> =
     Inr \<lparr>target_url = ''http://t'', scan_time = 0, duration = 1, components = [],
          total_vulnerabilities = 0, scan_config = default_config ''http://t''\<rparr>
   \<and> generate_report plain_library 2500000
     \<lparr>config = default_config ''http://t'', components = [], start_time = Some 0\<rparr> =
     Inr \<lparr>target_url = ''http://t'', scan_time = 0, duration = 5 / 2, components = [],
          total_vulnerabilities = 0, scan_config = default_config ''http://t''\<rparr>
   \<and> \<lparr>target_url = ''http://t'', scan_time = 0, duration = 5 / 2, components = [],
          total_vulnerabilities = 0, scan_config = default_config ''http://t''\<rparr> =
       \<lparr>target_url = ''http://t'', scan_time = 0, duration = 1, components = [],
          total_vulnerabilities = 0, scan_config = default_config ''http://t''\<rparr>
         \<lparr>duration := total_seconds plain_library (2500000 - 0)\<rparr>"
proof -
  have r: "generate_report plain_library 1000000
     \<lparr>config = default_config ''http://t'', components = [], start_time = Some 0\<rparr> =
     Inr \<lparr>target_url = ''http://t'', scan_time = 0, duration = 1, components = [],
          total_vulnerabilities = 0, scan_config = default_config ''http://t''\<rparr>"
    by (simp add: generate_report_def plain_library_def default_config_def)
  have r': "generate_report plain_library 2500000
     \<lparr>config = default_config ''http://t'', components = [], start_time = Some 0\<rparr> =
     Inr \<lparr>target_url = ''http://t'', scan_time = 0, duration = 5 / 2, components = [],
          total_vulnerabilities = 0, scan_config = default_config ''http://t''\<rparr>"
    by (simp add: generate_report_def plain_library_def default_config_def)
  from generate_report_deterministic [OF r r'] r r' show ?thesis
    by simp
qed

section \<open>Properties of scan\<close>

















section \<open>Properties of check\_component\<close>

lemma check_path_probe_raises:
  assumes "check_url srv self (path_url lib self path) 0 tr = (Inl e, tr1)"
  shows "check_path srv lib self path vars tr = (Inl e, tr1)"
  using assms by (cases vars) (simp add: path_url_def Let_def)

lemma check_component_first_raises:
  assumes "check_path srv lib self (''/components/'' @ c @ ''/'') ({}, [], None, None) (tr @ [Begin c])
             = (Inl e, tr1)"
  shows "check_component srv lib self c tr = (Inl e, tr1)"
  using assms by (simp add: check_component_def component_paths_def)

lemma check_component_second_raises:
  assumes "check_path srv lib self (''/components/'' @ c @ ''/'') ({}, [], None, None) (tr @ [Begin c])
             = (Inr vars1, tr1)"
    and "check_path srv lib self (''/administrator/components/'' @ c @ ''/'') vars1 tr1 = (Inl e, tr2)"
  shows "check_component srv lib self c tr = (Inl e, tr2)"
  using assms by (simp add: check_component_def component_paths_def)

lemma check_component_third_raises:
  assumes "check_path srv lib self (''/components/'' @ c @ ''/'') ({}, [], None, None) (tr @ [Begin c])
             = (Inr vars1, tr1)"
    and "check_path srv lib self (''/administrator/components/'' @ c @ ''/'') vars1 tr1 = (Inr vars2, tr2)"
    and "check_path srv lib self (''/index.php?option='' @ c) vars2 tr2 = (Inl e, tr3)"
  shows "check_component srv lib self c tr = (Inl e, tr3)"
  using assms by (simp add: check_component_def component_paths_def)

text \<open>
  C4, as the claim states it, fails: with a front-end path that resolves with status 200
  and a request for the query-string path that raises an exception other than
  \<open>httpx.RequestError\<close>, \<open>check_component\<close> raises; it returns no component although a
  path resolved.
\<close>

theorem check_component_raises_counterexample:
  "fst (check_url failing_query_session two_threads
          (path_url plain_library two_threads (''/components/'' @ ''c'' @ ''/'')) 0 [Begin ''c''])
     = Inr (Some 200)
   \<and> fst (check_component failing_query_session plain_library two_threads ''c'' [])
     = Inl (Exception ''InvalidURL'')"
  by code_simp

text \<open>
  C4, amended. When \<open>check_component\<close> returns, the three iterations of its loop have
  probed the front-end path, the administrator path and the query-string path with
  \<open>check_url\<close>, each at the trace the iteration before it left, and the result is a
  component if and only if one of these three statuses is 200; otherwise it is \<open>None\<close>.
  A component has the candidate's name and its paths are exactly the paths whose status
  was 200, so they are not empty. When the session raises nothing but
  \<open>httpx.RequestError\<close>, \<open>check_component\<close> does return. Otherwise it may raise instead:
  an exception of \<open>check_url\<close> for a path leaves the iteration, an exception that leaves
  one of the three iterations leaves \<open>check_component\<close>, and what \<open>check_component\<close>
  raises is an exception that the session raised to a GET and not an
  \<open>httpx.RequestError\<close>.
\<close>

theorem check_component_iff_resolved:
  "(\<forall>result tr'. check_component srv lib self c tr = (Inr result, tr') \<longrightarrow>
     (\<exists>s1 s2 s3 vars1 vars2 tr1 tr2.
        fst (check_url srv self (path_url lib self (''/components/'' @ c @ ''/'')) 0 (tr @ [Begin c])) = Inr s1
      \<and> check_path srv lib self (''/components/'' @ c @ ''/'') ({}, [], None, None) (tr @ [Begin c])
          = (Inr vars1, tr1)
      \<and> fst (check_url srv self (path_url lib self (''/administrator/components/'' @ c @ ''/'')) 0 tr1) = Inr s2
      \<and> check_path srv lib self (''/administrator/components/'' @ c @ ''/'') vars1 tr1 = (Inr vars2, tr2)
      \<and> fst (check_url srv self (path_url lib self (''/index.php?option='' @ c)) 0 tr2) = Inr s3
      \<and> (result \<noteq> None \<longleftrightarrow> s1 = Some 200 \<or> s2 = Some 200 \<or> s3 = Some 200)
      \<and> (\<forall>cpt. result = Some cpt \<longrightarrow>
            name cpt = c \<and> paths cpt \<noteq> {} \<and>
            paths cpt = {p. p = ''/components/'' @ c @ ''/'' \<and> s1 = Some 200
                          \<or> p = ''/administrator/components/'' @ c @ ''/'' \<and> s2 = Some 200
                          \<or> p = ''/index.php?option='' @ c \<and> s3 = Some 200})))
   \<and> ((\<forall>t m u e. srv t m u = Raises e \<longrightarrow> e = RequestError) \<longrightarrow>
        (\<exists>result tr'. check_component srv lib self c tr = (Inr result, tr')))
   \<and> (\<forall>e tr'. check_component srv lib self c tr = (Inl e, tr') \<longrightarrow>
        e \<noteq> RequestError \<and> (\<exists>t v. srv t GET v = Raises e))
   \<and> (\<forall>path vars t e t1. check_url srv self (path_url lib self path) 0 t = (Inl e, t1) \<longrightarrow>
        check_path srv lib self path vars t = (Inl e, t1))
   \<and> (\<forall>e t1. check_path srv lib self (''/components/'' @ c @ ''/'') ({}, [], None, None) (tr @ [Begin c])
                 = (Inl e, t1) \<longrightarrow>
        check_component srv lib self c tr = (Inl e, t1))
   \<and> (\<forall>vars1 t1 e t2.
        check_path srv lib self (''/components/'' @ c @ ''/'') ({}, [], None, None) (tr @ [Begin c])
          = (Inr vars1, t1)
        \<and> check_path srv lib self (''/administrator/components/'' @ c @ ''/'') vars1 t1 = (Inl e, t2) \<longrightarrow>
        check_component srv lib self c tr = (Inl e, t2))
   \<and> (\<forall>vars1 t1 vars2 t2 e t3.
        check_path srv lib self (''/components/'' @ c @ ''/'') ({}, [], None, None) (tr @ [Begin c])
          = (Inr vars1, t1)
        \<and> check_path srv lib self (''/administrator/components/'' @ c @ ''/'') vars1 t1 = (Inr vars2, t2)
        \<and> check_path srv lib self (''/index.php?option='' @ c) vars2 t2 = (Inl e, t3) \<longrightarrow>
        check_component srv lib self c tr = (Inl e, t3))"
proof -
  let ?p1 = "''/components/'' @ c @ ''/''"
  let ?p2 = "''/administrator/components/'' @ c @ ''/''"
  let ?p3 = "''/index.php?option='' @ c"
  have a: "\<forall>result tr'. check_component srv lib self c tr = (Inr result, tr') \<longrightarrow>
     (\<exists>s1 s2 s3 vars1 vars2 tr1 tr2.
        fst (check_url srv self (path_url lib self ?p1) 0 (tr @ [Begin c])) = Inr s1
      \<and> check_path srv lib self ?p1 ({}, [], None, None) (tr @ [Begin c]) = (Inr vars1, tr1)
      \<and> fst (check_url srv self (path_url lib self ?p2) 0 tr1) = Inr s2
      \<and> check_path srv lib self ?p2 vars1 tr1 = (Inr vars2, tr2)
      \<and> fst (check_url srv self (path_url lib self ?p3) 0 tr2) = Inr s3
      \<and> (result \<noteq> None \<longleftrightarrow> s1 = Some 200 \<or> s2 = Some 200 \<or> s3 = Some 200)
      \<and> (\<forall>cpt. result = Some cpt \<longrightarrow>
            name cpt = c \<and> paths cpt \<noteq> {} \<and>
            paths cpt = {p. p = ?p1 \<and> s1 = Some 200 \<or> p = ?p2 \<and> s2 = Some 200 \<or> p = ?p3 \<and> s3 = Some 200}))"
  proof (intro allI impI)
    fix result tr'
    assume run: "check_component srv lib self c tr = (Inr result, tr')"
    from check_component_steps [OF run] obtain s1 s2 s3 vars1 vars2 tr1 tr2 f v ver m where
      steps: "fst (check_url srv self (path_url lib self ?p1) 0 (tr @ [Begin c])) = Inr s1"
        "check_path srv lib self ?p1 ({}, [], None, None) (tr @ [Begin c]) = (Inr vars1, tr1)"
        "fst (check_url srv self (path_url lib self ?p2) 0 tr1) = Inr s2"
        "check_path srv lib self ?p2 vars1 tr1 = (Inr vars2, tr2)"
        "fst (check_url srv self (path_url lib self ?p3) 0 tr2) = Inr s3"
      and res: "result = (if f \<noteq> {} then Some \<lparr>name = c, paths = f, vulnerabilities = v,
                     version = ver, last_modified = m\<rparr> else None)"
      and f: "f = {p. p = ?p1 \<and> s1 = Some 200 \<or> p = ?p2 \<and> s2 = Some 200 \<or> p = ?p3 \<and> s3 = Some 200}"
      by blast
    have nonempty: "f \<noteq> {} \<longleftrightarrow> s1 = Some 200 \<or> s2 = Some 200 \<or> s3 = Some 200"
      unfolding f by blast
    have iff: "result \<noteq> None \<longleftrightarrow> s1 = Some 200 \<or> s2 = Some 200 \<or> s3 = Some 200"
      using res nonempty by (simp split: if_splits)
    have comp: "\<forall>cpt. result = Some cpt \<longrightarrow> name cpt = c \<and> paths cpt \<noteq> {} \<and>
              paths cpt = {p. p = ?p1 \<and> s1 = Some 200 \<or> p = ?p2 \<and> s2 = Some 200 \<or> p = ?p3 \<and> s3 = Some 200}"
    proof (intro allI impI)
      fix cpt
      assume "result = Some cpt"
      with res have "f \<noteq> {}" and "name cpt = c" and "paths cpt = f"
        by (auto split: if_splits)
      with f show "name cpt = c \<and> paths cpt \<noteq> {} \<and>
              paths cpt = {p. p = ?p1 \<and> s1 = Some 200 \<or> p = ?p2 \<and> s2 = Some 200 \<or> p = ?p3 \<and> s3 = Some 200}"
        by simp
    qed
    show "\<exists>s1 s2 s3 vars1 vars2 tr1 tr2.
          fst (check_url srv self (path_url lib self ?p1) 0 (tr @ [Begin c])) = Inr s1
        \<and> check_path srv lib self ?p1 ({}, [], None, None) (tr @ [Begin c]) = (Inr vars1, tr1)
        \<and> fst (check_url srv self (path_url lib self ?p2) 0 tr1) = Inr s2
        \<and> check_path srv lib self ?p2 vars1 tr1 = (Inr vars2, tr2)
        \<and> fst (check_url srv self (path_url lib self ?p3) 0 tr2) = Inr s3
        \<and> (result \<noteq> None \<longleftrightarrow> s1 = Some 200 \<or> s2 = Some 200 \<or> s3 = Some 200)
        \<and> (\<forall>cpt. result = Some cpt \<longrightarrow>
              name cpt = c \<and> paths cpt \<noteq> {} \<and>
              paths cpt = {p. p = ?p1 \<and> s1 = Some 200 \<or> p = ?p2 \<and> s2 = Some 200 \<or> p = ?p3 \<and> s3 = Some 200})"
      by (intro exI conjI) (rule steps iff comp)+
  qed
  have b: "(\<forall>t m u e. srv t m u = Raises e \<longrightarrow> e = RequestError) \<longrightarrow>
        (\<exists>result tr'. check_component srv lib self c tr = (Inr result, tr'))"
  proof
    assume only: "\<forall>t m u e. srv t m u = Raises e \<longrightarrow> e = RequestError"
    obtain r tr' where run: "check_component srv lib self c tr = (r, tr')"
      by (cases "check_component srv lib self c tr")
    show "\<exists>result tr'. check_component srv lib self c tr = (Inr result, tr')"
    proof (cases r)
      case (Inl e)
      with run check_component_Inl [of srv lib self c tr e tr'] only show ?thesis by blast
    next
      case (Inr result)
      with run show ?thesis by blast
    qed
  qed
  have c: "\<forall>e tr'. check_component srv lib self c tr = (Inl e, tr') \<longrightarrow>
        e \<noteq> RequestError \<and> (\<exists>t v. srv t GET v = Raises e)"
    by (intro allI impI) (rule check_component_Inl)
  have d: "\<forall>path vars t e t1. check_url srv self (path_url lib self path) 0 t = (Inl e, t1) \<longrightarrow>
        check_path srv lib self path vars t = (Inl e, t1)"
    by (intro allI impI) (rule check_path_probe_raises)
  have e1: "\<forall>e t1. check_path srv lib self ?p1 ({}, [], None, None) (tr @ [Begin c]) = (Inl e, t1) \<longrightarrow>
        check_component srv lib self c tr = (Inl e, t1)"
    by (intro allI impI) (rule check_component_first_raises)
  have e2: "\<forall>vars1 t1 e t2.
        check_path srv lib self ?p1 ({}, [], None, None) (tr @ [Begin c]) = (Inr vars1, t1)
        \<and> check_path srv lib self ?p2 vars1 t1 = (Inl e, t2) \<longrightarrow>
        check_component srv lib self c tr = (Inl e, t2)"
    by (intro allI impI, elim conjE) (rule check_component_second_raises)
  have e3: "\<forall>vars1 t1 vars2 t2 e t3.
        check_path srv lib self ?p1 ({}, [], None, None) (tr @ [Begin c]) = (Inr vars1, t1)
        \<and> check_path srv lib self ?p2 vars1 t1 = (Inr vars2, t2)
        \<and> check_path srv lib self ?p3 vars2 t2 = (Inl e, t3) \<longrightarrow>
        check_component srv lib self c tr = (Inl e, t3)"
    by (intro allI impI, elim conjE) (rule check_component_third_raises)
  from a b c d e1 e2 e3 show ?thesis by (intro conjI)
qed

theorem check_component_iff_resolved_witness:
  "fst (check_component versions_session plain_library two_threads ''c'' []) =
     Inr (Some \<lparr>name = ''c'', paths = {''/components/c/'', ''/index.php?option=c''},
                 vulnerabilities = [], version = Some ''3.0'', last_modified = None\<rparr>)
   \<and> paths \<lparr>name = ''c'', paths = {''/components/c/'', ''/index.php?option=c''},
             vulnerabilities = [], version = Some ''3.0'', last_modified = None\<rparr> \<noteq> {}
   \<and> (\<exists>tr'. check_component absent_session plain_library two_threads ''c'' [] = (Inr None, tr'))
   \<and> fst (check_component failing_query_session plain_library two_threads ''c'' []) =
       Inl (Exception ''InvalidURL'')
   \<and> (\<exists>t v. failing_query_session t GET v = Raises (Exception ''InvalidURL''))"
proof -
  let ?cpt = "\<lparr>name = ''c'', paths = {''/components/c/'', ''/index.php?option=c''},
                 vulnerabilities = [], version = Some ''3.0'', last_modified = None\<rparr>"
  have found: "fst (check_component versions_session plain_library two_threads ''c'' []) = Inr (Some ?cpt)"
    by code_simp
  then obtain tr' where run:
    "check_component versions_session plain_library two_threads ''c'' [] = (Inr (Some ?cpt), tr')"
    by (cases "check_component versions_session plain_library two_threads ''c'' []") simp
  from check_component_iff_resolved [of versions_session plain_library two_threads "''c''" "[]",
      THEN conjunct1, rule_format, OF run]
  have "\<exists>s1 s2 s3. \<forall>cpt. Some ?cpt = Some cpt \<longrightarrow> name cpt = ''c'' \<and> paths cpt \<noteq> {}"
    by (elim exE conjE) blast
  then have nonempty: "paths ?cpt \<noteq> {}"
    by simp
  have only: "\<forall>t m u e. absent_session t m u = Raises e \<longrightarrow> e = RequestError"
    by (simp add: absent_session_def)
  from check_component_iff_resolved [of absent_session plain_library two_threads "''c''" "[]",
      THEN conjunct2, THEN conjunct1, THEN mp, OF only]
  obtain result tr2 where ret:
    "check_component absent_session plain_library two_threads ''c'' [] = (Inr result, tr2)"
    by blast
  have "fst (check_component absent_session plain_library two_threads ''c'' []) = Inr None"
    by code_simp
  with ret have "check_component absent_session plain_library two_threads ''c'' [] = (Inr None, tr2)"
    by simp
  then have absent: "\<exists>tr'. check_component absent_session plain_library two_threads ''c'' [] = (Inr None, tr')"
    by (rule exI)
  have raised: "fst (check_component failing_query_session plain_library two_threads ''c'' []) =
       Inl (Exception ''InvalidURL'')"
    by code_simp
  then obtain tr3 where fail:
    "check_component failing_query_session plain_library two_threads ''c'' [] = (Inl (Exception ''InvalidURL''), tr3)"
    by (cases "check_component failing_query_session plain_library two_threads ''c'' []") simp
  from check_component_iff_resolved [of failing_query_session plain_library two_threads "''c''" "[]",
      THEN conjunct2, THEN conjunct2, THEN conjunct1, rule_format, OF fail]
  have session: "\<exists>t v. failing_query_session t GET v = Raises (Exception ''InvalidURL'')"
    by simp
  from found nonempty absent raised session show ?thesis by (intro conjI)
qed

text \<open>
  C9. The version and the last-modified date of a component are the results of
  \<open>get_component_version\<close> and \<open>get_last_modified\<close> in the iteration of the last path,
  in the order front-end, administrator, query string, whose status was 200: of the
  query-string path when it was found, else of the administrator path when it was found,
  else of the front-end path. What an earlier found path gave is overwritten.
\<close>

theorem last_found_path_wins:
  assumes "check_component srv lib self c tr = (Inr (Some cpt), tr')"
  shows "\<exists>s1 s2 s3 vars1 vars2 tr1 tr2.
        fst (check_url srv self (path_url lib self (''/components/'' @ c @ ''/'')) 0 (tr @ [Begin c])) = Inr s1
      \<and> check_path srv lib self (''/components/'' @ c @ ''/'') ({}, [], None, None) (tr @ [Begin c])
          = (Inr vars1, tr1)
      \<and> fst (check_url srv self (path_url lib self (''/administrator/components/'' @ c @ ''/'')) 0 tr1) = Inr s2
      \<and> check_path srv lib self (''/administrator/components/'' @ c @ ''/'') vars1 tr1 = (Inr vars2, tr2)
      \<and> fst (check_url srv self (path_url lib self (''/index.php?option='' @ c)) 0 tr2) = Inr s3
      \<and> (s3 = Some 200 \<longrightarrow>
           extracted srv lib self (path_url lib self (''/index.php?option='' @ c)) tr2
             (version cpt) (last_modified cpt) tr')
      \<and> (s3 \<noteq> Some 200 \<and> s2 = Some 200 \<longrightarrow>
           extracted srv lib self (path_url lib self (''/administrator/components/'' @ c @ ''/'')) tr1
             (version cpt) (last_modified cpt) tr2)
      \<and> (s3 \<noteq> Some 200 \<and> s2 \<noteq> Some 200 \<longrightarrow>
           s1 = Some 200 \<and>
           extracted srv lib self (path_url lib self (''/components/'' @ c @ ''/'')) (tr @ [Begin c])
             (version cpt) (last_modified cpt) tr1)"
proof -
  let ?p1 = "''/components/'' @ c @ ''/''"
  let ?p2 = "''/administrator/components/'' @ c @ ''/''"
  let ?p3 = "''/index.php?option='' @ c"
  from check_component_steps [OF assms] obtain s1 s2 s3 vars1 vars2 tr1 tr2 f v ver m where
    steps: "fst (check_url srv self (path_url lib self ?p1) 0 (tr @ [Begin c])) = Inr s1"
      "check_path srv lib self ?p1 ({}, [], None, None) (tr @ [Begin c]) = (Inr vars1, tr1)"
      "fst (check_url srv self (path_url lib self ?p2) 0 tr1) = Inr s2"
      "check_path srv lib self ?p2 vars1 tr1 = (Inr vars2, tr2)"
      "fst (check_url srv self (path_url lib self ?p3) 0 tr2) = Inr s3"
    and res: "Some cpt = (if f \<noteq> {} then Some \<lparr>name = c, paths = f, vulnerabilities = v,
                   version = ver, last_modified = m\<rparr> else None)"
    and f: "f = {p. p = ?p1 \<and> s1 = Some 200 \<or> p = ?p2 \<and> s2 = Some 200 \<or> p = ?p3 \<and> s3 = Some 200}"
    and x3: "s3 = Some 200 \<longrightarrow> extracted srv lib self (path_url lib self ?p3) tr2 ver m tr'"
    and x2: "s3 \<noteq> Some 200 \<and> s2 = Some 200 \<longrightarrow>
        extracted srv lib self (path_url lib self ?p2) tr1 ver m tr2"
    and x1: "s3 \<noteq> Some 200 \<and> s2 \<noteq> Some 200 \<and> s1 = Some 200 \<longrightarrow>
        extracted srv lib self (path_url lib self ?p1) (tr @ [Begin c]) ver m tr1"
    by blast
  from res have ne: "f \<noteq> {}" and ver: "version cpt = ver" and m: "last_modified cpt = m"
    by (auto split: if_splits)
  from ne f have some: "s1 = Some 200 \<or> s2 = Some 200 \<or> s3 = Some 200"
    by blast
  have y3: "s3 = Some 200 \<longrightarrow>
      extracted srv lib self (path_url lib self ?p3) tr2 (version cpt) (last_modified cpt) tr'"
    using x3 ver m by simp
  have y2: "s3 \<noteq> Some 200 \<and> s2 = Some 200 \<longrightarrow>
      extracted srv lib self (path_url lib self ?p2) tr1 (version cpt) (last_modified cpt) tr2"
    using x2 ver m by simp
  have y1: "s3 \<noteq> Some 200 \<and> s2 \<noteq> Some 200 \<longrightarrow> s1 = Some 200 \<and>
      extracted srv lib self (path_url lib self ?p1) (tr @ [Begin c]) (version cpt) (last_modified cpt) tr1"
    using x1 ver m some by blast
  show ?thesis by (intro exI conjI) (rule steps y3 y2 y1)+
qed

theorem last_found_path_wins_witness:
  "fst (check_component versions_session plain_library two_threads ''c'' []) =
     Inr (Some \<lparr>name = ''c'', paths = {''/components/c/'', ''/index.php?option=c''},
                 vulnerabilities = [], version = Some ''3.0'', last_modified = None\<rparr>)
   \<and> get_component_version versions_session plain_library two_threads ''http://t/components/c/'' [] =
       (Some ''1.0'', [Request GET ''http://t/components/c/''])
   \<and> get_last_modified versions_session plain_library ''http://t/components/c/'' [] =
       (Some 3, [Request HEAD ''http://t/components/c/''])
   \<and> (\<exists>tr2 tr'. extracted versions_session plain_library two_threads ''http://t/index.php?option=c''
          tr2 (Some ''3.0'') None tr')"
proof -
  let ?cpt = "\<lparr>name = ''c'', paths = {''/components/c/'', ''/index.php?option=c''},
                 vulnerabilities = [], version = Some ''3.0'', last_modified = None\<rparr>"
  have found: "fst (check_component versions_session plain_library two_threads ''c'' []) = Inr (Some ?cpt)"
    by code_simp
  then obtain tr' where run:
    "check_component versions_session plain_library two_threads ''c'' [] = (Inr (Some ?cpt), tr')"
    by (cases "check_component versions_session plain_library two_threads ''c'' []") simp
  have first: "get_component_version versions_session plain_library two_threads ''http://t/components/c/'' [] =
       (Some ''1.0'', [Request GET ''http://t/components/c/''])"
    by code_simp
  have first_modified: "get_last_modified versions_session plain_library ''http://t/components/c/'' [] =
       (Some 3, [Request HEAD ''http://t/components/c/''])"
    by code_simp
  have u3: "path_url plain_library two_threads (''/index.php?option='' @ ''c'') = ''http://t/index.php?option=c''"
    by (simp add: path_url_def plain_library_def two_threads_def init_scanner_def default_config_def)
  have status: "fst (check_url versions_session two_threads ''http://t/index.php?option=c'' 0 t) = Inr (Some 200)" for t
    by (subst check_url.simps) (simp add: versions_session_def)
  from last_found_path_wins [OF run] obtain s3 tr2 where
    "fst (check_url versions_session two_threads
        (path_url plain_library two_threads (''/index.php?option='' @ ''c'')) 0 tr2) = Inr s3"
    and "s3 = Some 200 \<longrightarrow>
      extracted versions_session plain_library two_threads
        (path_url plain_library two_threads (''/index.php?option='' @ ''c'')) tr2
        (version ?cpt) (last_modified ?cpt) tr'"
    by (elim exE conjE) blast
  with status [of tr2] have
    "extracted versions_session plain_library two_threads ''http://t/index.php?option=c'' tr2
       (Some ''3.0'') None tr'"
    unfolding u3 by simp
  then have "\<exists>tr2 tr'. extracted versions_session plain_library two_threads
      ''http://t/index.php?option=c'' tr2 (Some ''3.0'') None tr'"
    by (intro exI)
  with found first first_modified show ?thesis by (intro conjI)
qed

end
